theory Spec2Isabelle
  imports Complex_Main "HOL-Library.Char_ord" "HOL-Library.List_Lexorder"
begin

section \<open>The offline-first store of \<^verbatim>\<open>database.py\<close>\<close>

text \<open>
  A shallow embedding of class \<^verbatim>\<open>DatabaseManager\<close>. The two SQL databases are lists of
  typed rows in insertion order; the manager object together with what it reads from its
  environment (the remote database, the configuration, the network, the clock and the UUID
  generator) is one record that every method takes and returns.

  What the embedding fixes about the database library:
  \<^item> a column of the payload (\<^verbatim>\<open>name\<close>, \<^verbatim>\<open>species\<close>, \<^verbatim>\<open>breed\<close>, \<^verbatim>\<open>age\<close>,
    \<^verbatim>\<open>weight\<close>, \<^verbatim>\<open>notes\<close>) holds any SQL value, stored as given (type affinity is not
    modelled); the key, owner, timestamp and status columns hold text, \<^verbatim>\<open>is_deleted\<close> an
    integer;
  \<^item> timestamps are ISO-8601 strings and are compared as Python compares \<^verbatim>\<open>str\<close>:
    lexicographically, character by character;
  \<^item> \<^verbatim>\<open>execute\<close> takes the parameters of a statement as a tuple, and raises
    \<^verbatim>\<open>TypeError\<close> before the statement runs when it is handed a list;
  \<^item> a statement on the local database otherwise fails only by a constraint of the schema
    (primary key, \<^verbatim>\<open>UNIQUE\<close>, \<^verbatim>\<open>NOT NULL\<close>, and the foreign key where the connection
    enforces foreign keys, as the local connection does);
    \<^verbatim>\<open>commit\<close> does not change what the connection reads;
  \<^item> a statement on the remote database (with its \<^verbatim>\<open>commit\<close>) is one request that the
    network lets through or not; a request that fails leaves the remote database as it was;
  \<^item> \<^verbatim>\<open>INSERT OR REPLACE\<close> removes the rows that conflict on the primary key (for
    \<^verbatim>\<open>users\<close> also on \<^verbatim>\<open>username\<close>) and appends the new row;
  \<^item> in \<^verbatim>\<open>pull_from_remote\<close> the row of \<^verbatim>\<open>SELECT *\<close> has twelve values and the
    \<^verbatim>\<open>INSERT OR REPLACE\<close> eleven placeholders followed by the literal \<^verbatim>\<open>'synced'\<close>: the
    first eleven values are bound and the row's own \<^verbatim>\<open>sync_status\<close> is not used.
\<close>

subsection \<open>Values, rows and tables\<close>

datatype sql_value = SqlNull | SqlInteger int | SqlReal real | SqlText string

datatype db_error = IntegrityError | OperationalError | TypeError

datatype py_value = PyInt int | PyStr string | PyBool bool | PyDict "(string \<times> py_value) list"

record user_row =
  u_id :: string
  u_username :: string
  u_password_hash :: string
  u_created_at :: string
  u_updated_at :: string
  u_is_deleted :: int
  u_sync_status :: string

record pet_row =
  p_id :: string
  p_user_id :: string
  p_name :: sql_value
  p_species :: sql_value
  p_breed :: sql_value
  p_age :: sql_value
  p_weight :: sql_value
  p_notes :: sql_value
  p_created_at :: string
  p_updated_at :: string
  p_is_deleted :: int
  p_sync_status :: string

record log_row =
  l_id :: string
  l_table_name :: string
  l_record_id :: string
  l_operation :: string
  l_timestamp :: string
  l_synced :: int

text \<open>
  One connection's database: the three tables of \<^verbatim>\<open>_create_tables\<close>, and whether the
  connection enforces foreign keys. The program never sets \<^verbatim>\<open>PRAGMA foreign_keys\<close>, so a
  connection keeps what it was opened with: the local connection enforces them.
\<close>

record database =
  users :: "user_row list"
  pets :: "pet_row list"
  sync_log :: "log_row list"
  foreign_keys :: bool

text \<open>
  The \<^verbatim>\<open>DatabaseManager\<close> object (\<open>local_conn\<close>, \<open>has_remote_conn\<close> for
  \<^verbatim>\<open>self.remote_conn\<close> not being \<^verbatim>\<open>None\<close>, \<open>is_online\<close>) and its environment: the
  remote database, \<^verbatim>\<open>Config.is_remote_configured()\<close>, the outcome of the k-th remote
  request, the k-th reading of the clock and the k-th UUID, each with its counter.
\<close>

record manager =
  local_conn :: database
  has_remote_conn :: bool
  is_online :: bool
  remote_db :: database
  configured :: bool
  network :: "nat \<Rightarrow> bool"
  requests :: nat
  clock :: "nat \<Rightarrow> string"
  ticks :: nat
  uuid4 :: "nat \<Rightarrow> string"
  drawn :: nat

subsection \<open>Result dictionaries\<close>

text \<open>\<^verbatim>\<open>d[k] += 1\<close> on a dictionary kept as an association list in insertion order.\<close>

fun dict_incr :: "string \<Rightarrow> (string \<times> py_value) list \<Rightarrow> (string \<times> py_value) list" where
  "dict_incr k [] = []"
| "dict_incr k ((k', v) # d) =
     (if k' = k then (k', (case v of PyInt n \<Rightarrow> PyInt (n + 1) | _ \<Rightarrow> v)) # d
      else (k', v) # dict_incr k d)"

subsection \<open>The SQL statements\<close>

text \<open>\<^verbatim>\<open>SELECT ... FROM pets WHERE id = ?\<close>, \<^verbatim>\<open>fetchone()\<close>.\<close>

definition select_pet :: "database \<Rightarrow> string \<Rightarrow> pet_row option" where
  "select_pet db pet_id = find (\<lambda>r. p_id r = pet_id) (pets db)"

text \<open>\<^verbatim>\<open>SELECT ... FROM users WHERE id = ?\<close>, \<^verbatim>\<open>fetchone()\<close>.\<close>

definition select_user :: "database \<Rightarrow> string \<Rightarrow> user_row option" where
  "select_user db user_id = find (\<lambda>r. u_id r = user_id) (users db)"

text \<open>The constraints of table \<^verbatim>\<open>pets\<close> other than the primary key.\<close>

definition pet_row_ok :: "database \<Rightarrow> pet_row \<Rightarrow> bool" where
  "pet_row_ok db r =
     (p_name r \<noteq> SqlNull \<and> p_species r \<noteq> SqlNull \<and>
      (if foreign_keys db then p_user_id r \<in> set (map u_id (users db)) else True))"

text \<open>\<^verbatim>\<open>INSERT INTO pets ...\<close>\<close>

definition insert_pet :: "database \<Rightarrow> pet_row \<Rightarrow> db_error + database" where
  "insert_pet db r =
     (if p_id r \<in> set (map p_id (pets db)) then Inl IntegrityError
      else if pet_row_ok db r then Inr (db\<lparr>pets := pets db @ [r]\<rparr>)
      else Inl IntegrityError)"

text \<open>\<^verbatim>\<open>INSERT OR REPLACE INTO pets ...\<close>\<close>

definition insert_or_replace_pet :: "database \<Rightarrow> pet_row \<Rightarrow> db_error + database" where
  "insert_or_replace_pet db r =
     (if pet_row_ok db r
      then Inr (db\<lparr>pets := filter (\<lambda>x. p_id x \<noteq> p_id r) (pets db) @ [r]\<rparr>)
      else Inl IntegrityError)"

text \<open>\<^verbatim>\<open>INSERT INTO users ...\<close>: \<^verbatim>\<open>id\<close> is the primary key, \<^verbatim>\<open>username\<close> is unique.\<close>

definition insert_user :: "database \<Rightarrow> user_row \<Rightarrow> db_error + database" where
  "insert_user db r =
     (if u_id r \<in> set (map u_id (users db)) \<or> u_username r \<in> set (map u_username (users db))
      then Inl IntegrityError
      else Inr (db\<lparr>users := users db @ [r]\<rparr>))"

text \<open>
  \<^verbatim>\<open>INSERT OR REPLACE INTO users ...\<close>: the rows with the same id or the same username go.
  With foreign keys enforced, a pet left without its owner row makes the statement fail.
\<close>

definition insert_or_replace_user :: "database \<Rightarrow> user_row \<Rightarrow> db_error + database" where
  "insert_or_replace_user db r =
     (let kept = filter (\<lambda>x. u_id x \<noteq> u_id r \<and> u_username x \<noteq> u_username r) (users db);
          users' = kept @ [r]
      in if foreign_keys db \<and> \<not> list_all (\<lambda>p. p_user_id p \<in> set (map u_id users')) (pets db)
         then Inl IntegrityError
         else Inr (db\<lparr>users := users'\<rparr>))"

text \<open>\<^verbatim>\<open>INSERT INTO sync_log ...\<close>\<close>

definition insert_sync_log :: "database \<Rightarrow> log_row \<Rightarrow> db_error + database" where
  "insert_sync_log db e =
     (if l_id e \<in> set (map l_id (sync_log db)) then Inl IntegrityError
      else Inr (db\<lparr>sync_log := sync_log db @ [e]\<rparr>))"

text \<open>\<^verbatim>\<open>UPDATE pets SET sync_status = 'synced' WHERE id = ?\<close>\<close>

definition mark_pet_synced :: "database \<Rightarrow> string \<Rightarrow> database" where
  "mark_pet_synced db pet_id =
     db\<lparr>pets := map (\<lambda>r. if p_id r = pet_id then r\<lparr>p_sync_status := ''synced''\<rparr> else r) (pets db)\<rparr>"

text \<open>\<^verbatim>\<open>UPDATE users SET sync_status = 'synced' WHERE id = ?\<close>\<close>

definition mark_user_synced :: "database \<Rightarrow> string \<Rightarrow> database" where
  "mark_user_synced db user_id =
     db\<lparr>users := map (\<lambda>r. if u_id r = user_id then r\<lparr>u_sync_status := ''synced''\<rparr> else r) (users db)\<rparr>"

text \<open>
  \<^verbatim>\<open>UPDATE pets SET is_deleted = 1, updated_at = ?, sync_status = 'pending' WHERE id = ?\<close>
\<close>

definition soft_delete_pet :: "database \<Rightarrow> string \<Rightarrow> string \<Rightarrow> database" where
  "soft_delete_pet db timestamp pet_id =
     db\<lparr>pets := map (\<lambda>r. if p_id r = pet_id
                           then r\<lparr>p_is_deleted := 1, p_updated_at := timestamp,
                                  p_sync_status := ''pending''\<rparr>
                           else r) (pets db)\<rparr>"

text \<open>One \<^verbatim>\<open>column = ?\<close> of the \<^verbatim>\<open>SET\<close> clause that \<^verbatim>\<open>update_pet\<close> builds.\<close>

definition set_column :: "string \<times> sql_value \<Rightarrow> pet_row \<Rightarrow> pet_row" where
  "set_column kv r =
     (if fst kv = ''name'' then r\<lparr>p_name := snd kv\<rparr>
      else if fst kv = ''species'' then r\<lparr>p_species := snd kv\<rparr>
      else if fst kv = ''breed'' then r\<lparr>p_breed := snd kv\<rparr>
      else if fst kv = ''age'' then r\<lparr>p_age := snd kv\<rparr>
      else if fst kv = ''weight'' then r\<lparr>p_weight := snd kv\<rparr>
      else if fst kv = ''notes'' then r\<lparr>p_notes := snd kv\<rparr>
      else r)"

text \<open>
  \<^verbatim>\<open>UPDATE pets SET <updates>, updated_at = ?, sync_status = ? WHERE id = ?\<close>: the two
  bookkeeping columns are the last entries that \<^verbatim>\<open>update_pet\<close> puts into \<^verbatim>\<open>updates\<close>.
  A matching row whose \<^verbatim>\<open>name\<close> or \<^verbatim>\<open>species\<close> would become \<^verbatim>\<open>NULL\<close> makes the
  statement fail.
\<close>

definition update_pet_row :: "(string \<times> sql_value) list \<Rightarrow> string \<Rightarrow> pet_row \<Rightarrow> pet_row" where
  "update_pet_row updates timestamp r =
     (fold set_column updates r)\<lparr>p_updated_at := timestamp, p_sync_status := ''pending''\<rparr>"

definition update_pets :: "database \<Rightarrow> (string \<times> sql_value) list \<Rightarrow> string \<Rightarrow> string
    \<Rightarrow> db_error + database" where
  "update_pets db updates timestamp pet_id =
     (let pets' = map (\<lambda>r. if p_id r = pet_id then update_pet_row updates timestamp r else r) (pets db)
      in if list_all (\<lambda>r. p_name r \<noteq> SqlNull \<and> p_species r \<noteq> SqlNull)
              (filter (\<lambda>r. p_id r = pet_id) pets')
         then Inr (db\<lparr>pets := pets'\<rparr>)
         else Inl IntegrityError)"

subsection \<open>Clock, identifiers and the journal\<close>

definition generate_id :: "manager \<Rightarrow> string \<times> manager" where
  "generate_id m = (uuid4 m (drawn m), m\<lparr>drawn := drawn m + 1\<rparr>)"

definition get_timestamp :: "manager \<Rightarrow> string \<times> manager" where
  "get_timestamp m = (clock m (ticks m), m\<lparr>ticks := ticks m + 1\<rparr>)"

text \<open>\<^verbatim>\<open>_log_change\<close>: the id is drawn before the clock is read; the entry has \<^verbatim>\<open>synced = 0\<close>.\<close>

definition log_change :: "manager \<Rightarrow> string \<Rightarrow> string \<Rightarrow> string \<Rightarrow> manager \<times> (db_error + unit)" where
  "log_change m table record_id operation =
     (let (log_id, m1) = generate_id m;
          (timestamp, m2) = get_timestamp m1
      in case insert_sync_log (local_conn m2)
                \<lparr>l_id = log_id, l_table_name = table, l_record_id = record_id,
                 l_operation = operation, l_timestamp = timestamp, l_synced = 0\<rparr> of
           Inl e \<Rightarrow> (m2, Inl e)
         | Inr db \<Rightarrow> (m2\<lparr>local_conn := db\<rparr>, Inr ()))"

subsection \<open>The remote connector\<close>

text \<open>
  \<^verbatim>\<open>_try_connect_remote\<close>: \<^verbatim>\<open>libsql.connect\<close> is one request, \<^verbatim>\<open>_create_tables\<close> on the
  new connection (\<^verbatim>\<open>CREATE TABLE IF NOT EXISTS\<close>, no row changes) another one.
\<close>

definition try_connect_remote :: "manager \<Rightarrow> manager \<times> bool" where
  "try_connect_remote m =
     (if \<not> configured m then (m\<lparr>is_online := False\<rparr>, False)
      else if network m (requests m)
      then (let m1 = m\<lparr>has_remote_conn := True, requests := requests m + 1\<rparr>
            in if network m1 (requests m1)
               then (m1\<lparr>is_online := True, requests := requests m1 + 1\<rparr>, True)
               else (m1\<lparr>is_online := False, requests := requests m1 + 1\<rparr>, False))
      else (m\<lparr>is_online := False, requests := requests m + 1\<rparr>, False))"

definition check_connection :: "manager \<Rightarrow> manager \<times> bool" where
  "check_connection m = try_connect_remote m"

text \<open>\<^verbatim>\<open>self.remote_conn.execute(...)\<close> followed by \<^verbatim>\<open>self.remote_conn.commit()\<close>.\<close>

definition remote_write :: "manager \<Rightarrow> (database \<Rightarrow> db_error + database) \<Rightarrow> manager \<times> (db_error + unit)" where
  "remote_write m stmt =
     (let m1 = m\<lparr>requests := requests m + 1\<rparr>
      in if network m (requests m)
         then (case stmt (remote_db m) of
                 Inl e \<Rightarrow> (m1, Inl e)
               | Inr db \<Rightarrow> (m1\<lparr>remote_db := db\<rparr>, Inr ()))
         else (m1, Inl OperationalError))"

text \<open>\<^verbatim>\<open>self.remote_conn.execute("SELECT * FROM pets WHERE user_id = ?", ...).fetchall()\<close>\<close>

definition remote_select_pets :: "manager \<Rightarrow> string \<Rightarrow> manager \<times> (db_error + pet_row list)" where
  "remote_select_pets m user_id =
     (let m1 = m\<lparr>requests := requests m + 1\<rparr>
      in if network m (requests m)
         then (m1, Inr (filter (\<lambda>r. p_user_id r = user_id) (pets (remote_db m))))
         else (m1, Inl OperationalError))"

subsection \<open>Push of one record\<close>

definition sync_user_to_remote :: "manager \<Rightarrow> string \<Rightarrow> manager \<times> bool" where
  "sync_user_to_remote m user_id =
     (if \<not> is_online m \<or> \<not> has_remote_conn m then (m, False)
      else case select_user (local_conn m) user_id of
             None \<Rightarrow> (m, False)
           | Some user \<Rightarrow>
               (case remote_write m (\<lambda>db. insert_or_replace_user db (user\<lparr>u_sync_status := ''synced''\<rparr>)) of
                  (m1, Inl e) \<Rightarrow> (m1, False)
                | (m1, Inr _) \<Rightarrow> (m1\<lparr>local_conn := mark_user_synced (local_conn m1) user_id\<rparr>, True)))"

definition sync_pet_to_remote :: "manager \<Rightarrow> string \<Rightarrow> manager \<times> bool" where
  "sync_pet_to_remote m pet_id =
     (if \<not> is_online m \<or> \<not> has_remote_conn m then (m, False)
      else case select_pet (local_conn m) pet_id of
             None \<Rightarrow> (m, False)
           | Some pet \<Rightarrow>
               (case remote_write m (\<lambda>db. insert_or_replace_pet db (pet\<lparr>p_sync_status := ''synced''\<rparr>)) of
                  (m1, Inl e) \<Rightarrow> (m1, False)
                | (m1, Inr _) \<Rightarrow> (m1\<lparr>local_conn := mark_pet_synced (local_conn m1) pet_id\<rparr>, True)))"

subsection \<open>Local mutations and reads\<close>

definition create_user :: "manager \<Rightarrow> string \<Rightarrow> string \<Rightarrow> manager \<times> string option" where
  "create_user m username password_hash =
     (let (user_id, m1) = generate_id m;
          (timestamp, m2) = get_timestamp m1
      in case insert_user (local_conn m2)
                \<lparr>u_id = user_id, u_username = username, u_password_hash = password_hash,
                 u_created_at = timestamp, u_updated_at = timestamp, u_is_deleted = 0,
                 u_sync_status = ''pending''\<rparr> of
           Inl e \<Rightarrow> (m2, None)
         | Inr db \<Rightarrow>
             (case log_change (m2\<lparr>local_conn := db\<rparr>) ''users'' user_id ''INSERT'' of
                (m3, Inl e) \<Rightarrow> (m3, None)
              | (m3, Inr _) \<Rightarrow>
                  (if is_online m3 then fst (sync_user_to_remote m3 user_id) else m3,
                   Some user_id)))"

definition create_pet :: "manager \<Rightarrow> string \<Rightarrow> sql_value \<Rightarrow> sql_value \<Rightarrow> sql_value \<Rightarrow> sql_value
    \<Rightarrow> sql_value \<Rightarrow> sql_value \<Rightarrow> manager \<times> string option" where
  "create_pet m user_id name species breed age weight notes =
     (let (pet_id, m1) = generate_id m;
          (timestamp, m2) = get_timestamp m1
      in case insert_pet (local_conn m2)
                \<lparr>p_id = pet_id, p_user_id = user_id, p_name = name, p_species = species,
                 p_breed = breed, p_age = age, p_weight = weight, p_notes = notes,
                 p_created_at = timestamp, p_updated_at = timestamp, p_is_deleted = 0,
                 p_sync_status = ''pending''\<rparr> of
           Inl e \<Rightarrow> (m2, None)
         | Inr db \<Rightarrow>
             (case log_change (m2\<lparr>local_conn := db\<rparr>) ''pets'' pet_id ''INSERT'' of
                (m3, Inl e) \<Rightarrow> (m3, None)
              | (m3, Inr _) \<Rightarrow>
                  (if is_online m3 then fst (sync_pet_to_remote m3 pet_id) else m3,
                   Some pet_id)))"

text \<open>\<^verbatim>\<open>SELECT * FROM users WHERE id = ? AND is_deleted = 0\<close>\<close>

definition get_user_by_id :: "manager \<Rightarrow> string \<Rightarrow> user_row option" where
  "get_user_by_id m user_id =
     find (\<lambda>r. u_id r = user_id \<and> u_is_deleted r = 0) (users (local_conn m))"

text \<open>\<^verbatim>\<open>SELECT * FROM pets WHERE id = ? AND is_deleted = 0\<close>\<close>

definition get_pet_by_id :: "manager \<Rightarrow> string \<Rightarrow> pet_row option" where
  "get_pet_by_id m pet_id =
     find (\<lambda>r. p_id r = pet_id \<and> p_is_deleted r = 0) (pets (local_conn m))"

definition allowed_fields :: "string list" where
  "allowed_fields = [''name'', ''species'', ''breed'', ''age'', ''weight'', ''notes'']"

text \<open>
  \<^verbatim>\<open>self.local_conn.execute(sql, values)\<close> with \<^verbatim>\<open>values\<close> a Python list, as
  \<^verbatim>\<open>update_pet\<close> builds it (\<^verbatim>\<open>list(updates.values()) + [pet_id]\<close>; every other call
  passes a tuple): \<^verbatim>\<open>TypeError\<close>, and the statement does not run.
\<close>

definition execute_with_list :: "database \<Rightarrow> (database \<Rightarrow> db_error + database) \<Rightarrow> db_error + database" where
  "execute_with_list db stmt = Inl TypeError"

text \<open>
  \<^verbatim>\<open>update_pet(pet_id, **kwargs)\<close>: the keyword arguments are the dictionary \<open>kwargs\<close>, an
  association list in insertion order. The clock is read before the \<^verbatim>\<open>try\<close>.
\<close>

definition update_pet :: "manager \<Rightarrow> string \<Rightarrow> (string \<times> sql_value) list \<Rightarrow> manager \<times> bool" where
  "update_pet m pet_id kwargs =
     (let updates = filter (\<lambda>kv. fst kv \<in> set allowed_fields) kwargs
      in if updates = [] then (m, False)
         else (let (timestamp, m1) = get_timestamp m
               in case execute_with_list (local_conn m1)
                         (\<lambda>db. update_pets db updates timestamp pet_id) of
                    Inl e \<Rightarrow> (m1, False)
                  | Inr db \<Rightarrow>
                      (case log_change (m1\<lparr>local_conn := db\<rparr>) ''pets'' pet_id ''UPDATE'' of
                         (m2, Inl e) \<Rightarrow> (m2, False)
                       | (m2, Inr _) \<Rightarrow>
                           (if is_online m2 then fst (sync_pet_to_remote m2 pet_id) else m2,
                            True))))"

definition delete_pet :: "manager \<Rightarrow> string \<Rightarrow> manager \<times> bool" where
  "delete_pet m pet_id =
     (let (timestamp, m1) = get_timestamp m;
          m2 = m1\<lparr>local_conn := soft_delete_pet (local_conn m1) timestamp pet_id\<rparr>
      in case log_change m2 ''pets'' pet_id ''DELETE'' of
           (m3, Inl e) \<Rightarrow> (m3, False)
         | (m3, Inr _) \<Rightarrow>
             (if is_online m3 then fst (sync_pet_to_remote m3 pet_id) else m3, True))"

subsection \<open>Push of everything pending\<close>

text \<open>The two \<^verbatim>\<open>for\<close> loops of \<^verbatim>\<open>sync_all_pending\<close> over the ids fetched before the loop.\<close>

fun sync_users_loop :: "manager \<Rightarrow> string list \<Rightarrow> (string \<times> py_value) list
    \<Rightarrow> manager \<times> (string \<times> py_value) list" where
  "sync_users_loop m [] synced = (m, synced)"
| "sync_users_loop m (user_id # rest) synced =
     (case sync_user_to_remote m user_id of
        (m1, True) \<Rightarrow> sync_users_loop m1 rest (dict_incr ''users'' synced)
      | (m1, False) \<Rightarrow> sync_users_loop m1 rest synced)"

fun sync_pets_loop :: "manager \<Rightarrow> string list \<Rightarrow> (string \<times> py_value) list
    \<Rightarrow> manager \<times> (string \<times> py_value) list" where
  "sync_pets_loop m [] synced = (m, synced)"
| "sync_pets_loop m (pet_id # rest) synced =
     (case sync_pet_to_remote m pet_id of
        (m1, True) \<Rightarrow> sync_pets_loop m1 rest (dict_incr ''pets'' synced)
      | (m1, False) \<Rightarrow> sync_pets_loop m1 rest synced)"

definition sync_all_pending :: "manager \<Rightarrow> manager \<times> (string \<times> py_value) list" where
  "sync_all_pending m =
     (case check_connection m of
        (m1, False) \<Rightarrow>
          (m1, [(''users'', PyInt 0), (''pets'', PyInt 0), (''status'', PyStr ''offline'')])
      | (m1, True) \<Rightarrow>
          (let synced = [(''users'', PyInt 0), (''pets'', PyInt 0), (''status'', PyStr ''online'')];
               pending_users =
                 map u_id (filter (\<lambda>r. u_sync_status r = ''pending'') (users (local_conn m1)));
               (m2, synced2) = sync_users_loop m1 pending_users synced;
               pending_pets =
                 map p_id (filter (\<lambda>r. p_sync_status r = ''pending'') (pets (local_conn m2)))
           in sync_pets_loop m2 pending_pets synced2))"

subsection \<open>Pull and full sync\<close>

text \<open>
  The \<^verbatim>\<open>for pet in remote_pets\<close> loop on the local database. An exception of the
  \<^verbatim>\<open>INSERT OR REPLACE\<close> leaves the loop (the \<^verbatim>\<open>except\<close> is around the whole loop) with
  the rows and the count written so far.
\<close>

fun pull_loop :: "database \<Rightarrow> pet_row list \<Rightarrow> (string \<times> py_value) list
    \<Rightarrow> database \<times> (string \<times> py_value) list" where
  "pull_loop db [] pulled = (db, pulled)"
| "pull_loop db (pet # rest) pulled =
     (let local_pet = map_option p_updated_at (select_pet db (p_id pet))
      in if (case local_pet of None \<Rightarrow> True | Some local_updated \<Rightarrow> local_updated < p_updated_at pet)
         then (case insert_or_replace_pet db (pet\<lparr>p_sync_status := ''synced''\<rparr>) of
                 Inl e \<Rightarrow> (db, pulled)
               | Inr db' \<Rightarrow> pull_loop db' rest (dict_incr ''pets'' pulled))
         else pull_loop db rest pulled)"

definition pull_from_remote :: "manager \<Rightarrow> string \<Rightarrow> manager \<times> (string \<times> py_value) list" where
  "pull_from_remote m user_id =
     (if \<not> is_online m \<or> \<not> has_remote_conn m
      then (m, [(''pets'', PyInt 0), (''status'', PyStr ''offline'')])
      else (let pulled = [(''pets'', PyInt 0), (''status'', PyStr ''online'')]
            in case remote_select_pets m user_id of
                 (m1, Inl e) \<Rightarrow> (m1, pulled)
               | (m1, Inr remote_pets) \<Rightarrow>
                   (case pull_loop (local_conn m1) remote_pets pulled of
                      (db, pulled') \<Rightarrow> (m1\<lparr>local_conn := db\<rparr>, pulled'))))"

definition full_sync :: "manager \<Rightarrow> string \<Rightarrow> manager \<times> (string \<times> py_value) list" where
  "full_sync m user_id =
     (let (m1, push_result) = sync_all_pending m;
          (m2, pull_result) = pull_from_remote m1 user_id
      in (m2, [(''pushed'', PyDict push_result), (''pulled'', PyDict pull_result),
               (''is_online'', PyBool (is_online m2))]))"

subsection \<open>An invariant of the local database\<close>

text \<open>
  What every method keeps true of the local database: the connection enforces foreign keys,
  as it was opened, and no account is soft-deleted (no statement writes \<^verbatim>\<open>users.is_deleted\<close>;
  \<^verbatim>\<open>create_user\<close> inserts with the default \<open>0\<close>).
\<close>

definition accounts_live :: "database \<Rightarrow> bool" where
  "accounts_live db = (foreign_keys db \<and> list_all (\<lambda>u. u_is_deleted u = 0) (users db))"

subsection \<open>Sample states\<close>

text \<open>
  A device with one account and one pet that has not been pushed yet, no remote configured;
  the clock stands still and the k-th identifier is \<open>k + 1\<close> letters long. Connections
  enforce foreign keys.
\<close>

definition ann :: user_row where
  "ann = \<lparr>u_id = ''u1'', u_username = ''ann'', u_password_hash = ''x'',
          u_created_at = ''2024-01-01T00:00:00'', u_updated_at = ''2024-01-01T00:00:00'',
          u_is_deleted = 0, u_sync_status = ''synced''\<rparr>"

definition rex :: pet_row where
  "rex = \<lparr>p_id = ''p1'', p_user_id = ''u1'', p_name = SqlText ''Rex'', p_species = SqlText ''dog'',
          p_breed = SqlText [], p_age = SqlInteger 3, p_weight = SqlReal 0, p_notes = SqlText [],
          p_created_at = ''2024-01-01T00:00:00'', p_updated_at = ''2024-01-01T00:00:00'',
          p_is_deleted = 0, p_sync_status = ''pending''\<rparr>"

definition empty_db :: database where
  "empty_db = \<lparr>users = [], pets = [], sync_log = [], foreign_keys = True\<rparr>"

definition home_db :: database where
  "home_db = \<lparr>users = [ann], pets = [rex], sync_log = [], foreign_keys = True\<rparr>"

definition offline_device :: manager where
  "offline_device =
     \<lparr>local_conn = home_db, has_remote_conn = False, is_online = False, remote_db = empty_db,
      configured = False, network = (\<lambda>k. True), requests = 0,
      clock = (\<lambda>k. ''2024-01-01T00:00:00''), ticks = 0,
      uuid4 = (\<lambda>k. replicate (Suc k) (CHR ''a'')), drawn = 0\<rparr>"

text \<open>The same device online; the remote database knows the account and no pet.\<close>

definition remote_start :: database where
  "remote_start = \<lparr>users = [ann], pets = [], sync_log = [], foreign_keys = True\<rparr>"

definition online_device :: manager where
  "online_device =
     offline_device\<lparr>has_remote_conn := True, is_online := True, configured := True,
                    remote_db := remote_start\<rparr>"




text \<open>
  A device that is online, with two pets of its own, facing a remote database where the
  first pet is ten seconds newer, the second has the same timestamp but other notes, and a
  third pet is unknown to the device.
\<close>

definition bella :: pet_row where
  "bella = \<lparr>p_id = ''p3'', p_user_id = ''u1'', p_name = SqlText ''Bella'', p_species = SqlText ''cat'',
            p_breed = SqlNull, p_age = SqlInteger 7, p_weight = SqlReal 4, p_notes = SqlText ''shy'',
            p_created_at = ''2024-01-01T00:00:00'', p_updated_at = ''2024-01-01T00:00:00'',
            p_is_deleted = 0, p_sync_status = ''pending''\<rparr>"

definition tom :: pet_row where
  "tom = \<lparr>p_id = ''p2'', p_user_id = ''u1'', p_name = SqlText ''Tom'', p_species = SqlText ''cat'',
          p_breed = SqlNull, p_age = SqlInteger 1, p_weight = SqlReal 3, p_notes = SqlText [],
          p_created_at = ''2024-01-01T00:00:05'', p_updated_at = ''2024-01-01T00:00:05'',
          p_is_deleted = 0, p_sync_status = ''synced''\<rparr>"

definition remote_home :: database where
  "remote_home =
     \<lparr>users = [ann],
      pets = [rex\<lparr>p_name := SqlText ''Rex II'', p_updated_at := ''2024-01-01T00:00:10'',
                  p_sync_status := ''synced''\<rparr>,
              tom,
              bella\<lparr>p_notes := SqlText ''bold'', p_sync_status := ''synced''\<rparr>],
      sync_log = [], foreign_keys = True\<rparr>"

definition pulling_device :: manager where
  "pulling_device =
     online_device\<lparr>local_conn := home_db\<lparr>pets := [rex, bella]\<rparr>, remote_db := remote_home\<rparr>"



text \<open>The online device when the remote database holds a pet of the account that is not stored locally.\<close>

definition syncing_device :: manager where
  "syncing_device = online_device\<lparr>remote_db := remote_start\<lparr>pets := [tom]\<rparr>\<rparr>"

section \<open>Properties\<close>

subsection \<open>Lookups after a statement\<close>

lemma find_replace_same:
  "f r = i \<Longrightarrow> find (\<lambda>x. f x = i) (filter (\<lambda>x. f x \<noteq> i) xs @ [r]) = Some r"
  by (induction xs) auto

lemma find_replace_other:
  "f r \<noteq> i \<Longrightarrow> find (\<lambda>x. f x = i) (filter (\<lambda>x. f x \<noteq> f r) xs @ [r]) = find (\<lambda>x. f x = i) xs"
  by (induction xs) auto

lemma find_map_keep:
  "(\<And>x. f (g x) = f x) \<Longrightarrow> find (\<lambda>x. f x = i) (map g xs) = map_option g (find (\<lambda>x. f x = i) xs)"
  by (induction xs) auto

lemma select_pet_replace_same:
  "insert_or_replace_pet db r = Inr db' \<Longrightarrow> select_pet db' (p_id r) = Some r"
  by (auto simp: insert_or_replace_pet_def select_pet_def find_replace_same split: if_splits)

lemma select_pet_replace_other:
  "insert_or_replace_pet db r = Inr db' \<Longrightarrow> i \<noteq> p_id r \<Longrightarrow> select_pet db' i = select_pet db i"
  by (auto simp: insert_or_replace_pet_def select_pet_def find_replace_other split: if_splits)

lemma find_map_upd:
  "(\<And>x. f (g x) = f x) \<Longrightarrow>
   find (\<lambda>x. f x = j) (map (\<lambda>r. if f r = i then g r else r) xs)
     = (if i = j then map_option g (find (\<lambda>x. f x = j) xs) else find (\<lambda>x. f x = j) xs)"
  by (induction xs) auto

lemma select_pet_mark_synced:
  "select_pet (mark_pet_synced db i) j
     = (if i = j then map_option (\<lambda>r. r\<lparr>p_sync_status := ''synced''\<rparr>) (select_pet db j)
        else select_pet db j)"
  unfolding mark_pet_synced_def select_pet_def
  using find_map_upd [of p_id "\<lambda>r. r\<lparr>p_sync_status := ''synced''\<rparr>" j i "pets db"]
  by simp

lemma find_user_replace_same:
  "find (\<lambda>x. u_id x = u_id r) (filter (\<lambda>x. u_id x \<noteq> u_id r \<and> u_username x \<noteq> u_username r) xs @ [r]) = Some r"
  by (induction xs) auto

lemma select_user_replace_same:
  "insert_or_replace_user db r = Inr db' \<Longrightarrow> select_user db' (u_id r) = Some r"
  by (auto simp: insert_or_replace_user_def select_user_def find_user_replace_same Let_def split: if_splits)

lemma select_user_mark_synced:
  "select_user (mark_user_synced db i) j
     = (if i = j then map_option (\<lambda>r. r\<lparr>u_sync_status := ''synced''\<rparr>) (select_user db j)
        else select_user db j)"
  unfolding mark_user_synced_def select_user_def
  using find_map_upd [of u_id "\<lambda>r. r\<lparr>u_sync_status := ''synced''\<rparr>" j i "users db"]
  by simp

lemma select_pet_id: "select_pet db i = Some r \<Longrightarrow> p_id r = i"
  by (auto simp: select_pet_def find_Some_iff)

lemma select_user_id: "select_user db i = Some r \<Longrightarrow> u_id r = i"
  by (auto simp: select_user_def find_Some_iff)

lemma select_pet_pets:
  "select_pet (db\<lparr>pets := xs\<rparr>) i = find (\<lambda>r. p_id r = i) xs"
  by (simp add: select_pet_def)

lemma pet_row_ok_status [simp]:
  "pet_row_ok db (r\<lparr>p_sync_status := s\<rparr>) = pet_row_ok db r"
  by (simp add: pet_row_ok_def)

lemma remote_write_ok:
  "snd (remote_write m stmt) = Inr () \<longleftrightarrow> network m (requests m) \<and> (\<exists>db. stmt (remote_db m) = Inr db)"
  by (auto simp: remote_write_def Let_def split: sum.splits)

lemma sync_pet_to_remote_effect:
  assumes "is_online m" "has_remote_conn m" "select_pet (local_conn m) pet_id = Some pet"
  shows "sync_pet_to_remote m pet_id =
     (if network m (requests m) \<and> pet_row_ok (remote_db m) pet
      then (m\<lparr>local_conn := mark_pet_synced (local_conn m) pet_id,
              remote_db := (remote_db m)\<lparr>pets := filter (\<lambda>x. p_id x \<noteq> pet_id) (pets (remote_db m))
                                                  @ [pet\<lparr>p_sync_status := ''synced''\<rparr>]\<rparr>,
              requests := requests m + 1\<rparr>, True)
      else (m\<lparr>requests := requests m + 1\<rparr>, False))"
proof -
  from assms(3) have "p_id pet = pet_id" by (rule select_pet_id)
  with assms show ?thesis
    by (simp add: sync_pet_to_remote_def remote_write_def insert_or_replace_pet_def Let_def)
qed

lemma sync_user_to_remote_effect:
  assumes "is_online m" "has_remote_conn m" "select_user (local_conn m) user_id = Some user"
  shows "sync_user_to_remote m user_id =
     (case (if network m (requests m)
            then insert_or_replace_user (remote_db m) (user\<lparr>u_sync_status := ''synced''\<rparr>)
            else Inl OperationalError) of
        Inr db \<Rightarrow> (m\<lparr>local_conn := mark_user_synced (local_conn m) user_id,
                     remote_db := db, requests := requests m + 1\<rparr>, True)
      | Inl e \<Rightarrow> (m\<lparr>requests := requests m + 1\<rparr>, False))"
  using assms
  by (simp add: sync_user_to_remote_def remote_write_def Let_def split: sum.splits)

subsection \<open>The journal, the push of one pet and the soft delete, step by step\<close>

lemma log_change_effect:
  "log_change m table record_id operation =
     (if uuid4 m (drawn m) \<in> set (map l_id (sync_log (local_conn m)))
      then (m\<lparr>ticks := ticks m + 1, drawn := drawn m + 1\<rparr>, Inl IntegrityError)
      else (m\<lparr>local_conn := (local_conn m)\<lparr>sync_log := sync_log (local_conn m) @
                 [\<lparr>l_id = uuid4 m (drawn m), l_table_name = table, l_record_id = record_id,
                   l_operation = operation, l_timestamp = clock m (ticks m), l_synced = 0\<rparr>]\<rparr>,
              ticks := ticks m + 1, drawn := drawn m + 1\<rparr>, Inr ()))"
  by (simp add: log_change_def generate_id_def get_timestamp_def insert_sync_log_def)

lemma sync_pet_to_remote_local:
  "local_conn (fst (sync_pet_to_remote m i))
     = (if snd (sync_pet_to_remote m i) then mark_pet_synced (local_conn m) i else local_conn m)"
  by (auto simp: sync_pet_to_remote_def remote_write_def Let_def split: option.splits sum.splits)

lemma sync_pet_to_remote_pushed:
  assumes "snd (sync_pet_to_remote m i)"
  shows "is_online m \<and> (\<exists>pet. select_pet (local_conn m) i = Some pet
           \<and> select_pet (remote_db (fst (sync_pet_to_remote m i))) i = Some (pet\<lparr>p_sync_status := ''synced''\<rparr>))"
proof -
  from assms have on: "is_online m" "has_remote_conn m"
    by (auto simp: sync_pet_to_remote_def split: if_splits)
  from assms on obtain pet where sel: "select_pet (local_conn m) i = Some pet"
    by (auto simp: sync_pet_to_remote_def split: option.splits)
  then have "p_id pet = i" by (rule select_pet_id)
  with assms on sel show ?thesis
    by (auto simp: sync_pet_to_remote_effect [OF on sel] select_pet_pets find_replace_same split: if_splits)
qed

lemma select_pet_soft_delete:
  "select_pet (soft_delete_pet db ts i) j
     = (if i = j then map_option (\<lambda>r. r\<lparr>p_is_deleted := 1, p_updated_at := ts, p_sync_status := ''pending''\<rparr>) (select_pet db j)
        else select_pet db j)"
  unfolding soft_delete_pet_def select_pet_def
  using find_map_upd [of p_id "\<lambda>r. r\<lparr>p_is_deleted := 1, p_updated_at := ts, p_sync_status := ''pending''\<rparr>" j i "pets db"]
  by simp

lemma select_pet_sync_log [simp]:
  "select_pet (db\<lparr>sync_log := l\<rparr>) i = select_pet db i"
  by (simp add: select_pet_def)

lemma map_key_upd:
  "(\<And>x. f (g x) = f x) \<Longrightarrow> map f (map (\<lambda>r. if c r then g r else r) xs) = map f xs"
  by (induction xs) simp_all

lemma ids_soft_delete: "map p_id (pets (soft_delete_pet db ts i)) = map p_id (pets db)"
  unfolding soft_delete_pet_def
  using map_key_upd [of p_id "\<lambda>r. r\<lparr>p_is_deleted := 1, p_updated_at := ts, p_sync_status := ''pending''\<rparr>"
          "\<lambda>r. p_id r = i" "pets db"]
  by simp

lemma ids_mark_synced: "map p_id (pets (mark_pet_synced db i)) = map p_id (pets db)"
  unfolding mark_pet_synced_def
  using map_key_upd [of p_id "\<lambda>r. r\<lparr>p_sync_status := ''synced''\<rparr>" "\<lambda>r. p_id r = i" "pets db"]
  by simp

lemma get_pet_by_id_deleted:
  "(\<forall>r \<in> set (pets (local_conn m)). p_id r = i \<longrightarrow> p_is_deleted r = 1) \<Longrightarrow> get_pet_by_id m i = None"
  unfolding get_pet_by_id_def find_None_iff by fastforce

lemma soft_delete_all:
  "\<forall>r \<in> set (pets (soft_delete_pet db ts i)). p_id r = i \<longrightarrow> p_is_deleted r = 1"
proof -
  have "\<forall>r \<in> set (map (\<lambda>r. if p_id r = i
                           then r\<lparr>p_is_deleted := 1, p_updated_at := ts, p_sync_status := ''pending''\<rparr>
                           else r) xs). p_id r = i \<longrightarrow> p_is_deleted r = 1" for xs
    by (induction xs) simp_all
  then show ?thesis
    by (simp add: soft_delete_pet_def)
qed

lemma mark_synced_deleted:
  assumes "\<forall>r \<in> set (pets db). p_id r = i \<longrightarrow> p_is_deleted r = 1"
  shows "\<forall>r \<in> set (pets (mark_pet_synced db j)). p_id r = i \<longrightarrow> p_is_deleted r = 1"
proof (intro ballI impI)
  fix r
  assume "r \<in> set (pets (mark_pet_synced db j))" and i: "p_id r = i"
  then obtain r0 where r0: "r0 \<in> set (pets db)"
    and r: "r = (if p_id r0 = j then r0\<lparr>p_sync_status := ''synced''\<rparr> else r0)"
    unfolding mark_pet_synced_def by auto
  from r have same: "p_id r = p_id r0" "p_is_deleted r = p_is_deleted r0"
    by (cases "p_id r0 = j"; simp)+
  from assms r0 have "p_id r0 = i \<longrightarrow> p_is_deleted r0 = 1"
    by blast
  with i same show "p_is_deleted r = 1"
    by (simp only:)
qed

lemma log_change_frame [simp]:
  "pets (local_conn (fst (log_change m t r operation))) = pets (local_conn m)"
  "users (local_conn (fst (log_change m t r operation))) = users (local_conn m)"
  "foreign_keys (local_conn (fst (log_change m t r operation))) = foreign_keys (local_conn m)"
  "is_online (fst (log_change m t r operation)) = is_online m"
  "has_remote_conn (fst (log_change m t r operation)) = has_remote_conn m"
  "remote_db (fst (log_change m t r operation)) = remote_db m"
  "network (fst (log_change m t r operation)) = network m"
  "requests (fst (log_change m t r operation)) = requests m"
  "clock (fst (log_change m t r operation)) = clock m"
  "select_pet (local_conn (fst (log_change m t r operation))) i = select_pet (local_conn m) i"
  by (simp_all add: log_change_effect select_pet_def)

lemma delete_pet_fst:
  "fst (delete_pet m i) =
     (let m2 = m\<lparr>ticks := ticks m + 1,
                  local_conn := soft_delete_pet (local_conn m) (clock m (ticks m)) i\<rparr>;
          logged = log_change m2 ''pets'' i ''DELETE''
      in if snd logged = Inr () \<and> is_online m then fst (sync_pet_to_remote (fst logged) i)
         else fst logged)"
  by (simp add: delete_pet_def get_timestamp_def Let_def case_prod_beta split: sum.splits)

lemma sync_pet_to_remote_local_cases:
  "local_conn (fst (sync_pet_to_remote m i)) = local_conn m
   \<or> snd (sync_pet_to_remote m i)
     \<and> local_conn (fst (sync_pet_to_remote m i)) = mark_pet_synced (local_conn m) i"
  using sync_pet_to_remote_local [of m i] by (cases "snd (sync_pet_to_remote m i)") simp_all

lemma delete_pet_effect:
  assumes "select_pet (local_conn m) pet_id = Some pet"
  shows "select_pet (soft_delete_pet (local_conn m) ts pet_id) pet_id
           = Some (pet\<lparr>p_is_deleted := 1, p_updated_at := ts, p_sync_status := ''pending''\<rparr>)"
    and "map p_id (pets (local_conn (fst (delete_pet m pet_id)))) = map p_id (pets (local_conn m))"
    and "\<exists>r. select_pet (local_conn (fst (delete_pet m pet_id))) pet_id = Some r \<and> p_is_deleted r = 1
           \<and> (p_sync_status r = ''pending''
              \<or> p_sync_status r = ''synced'' \<and> is_online m
                \<and> map_option p_is_deleted (select_pet (remote_db (fst (delete_pet m pet_id))) pet_id) = Some 1)"
    and "get_pet_by_id (fst (delete_pet m pet_id)) pet_id = None"
    and "\<forall>r\<in>set (pets (local_conn (fst (delete_pet m pet_id)))). p_id r = pet_id \<longrightarrow> p_is_deleted r = 1"
proof -
  define db where "db = soft_delete_pet (local_conn m) (clock m (ticks m)) pet_id"
  define m3 where "m3 = fst (log_change (m\<lparr>ticks := ticks m + 1, local_conn := db\<rparr>) ''pets'' pet_id ''DELETE'')"
  define del where "del = pet\<lparr>p_is_deleted := 1, p_updated_at := clock m (ticks m), p_sync_status := ''pending''\<rparr>"
  define m' where "m' = fst (delete_pet m pet_id)"
  have pets3: "pets (local_conn m3) = pets db"
    by (simp add: m3_def)
  have sel3: "select_pet (local_conn m3) pet_id = Some del"
    using assms by (simp add: m3_def db_def del_def select_pet_soft_delete)
  have del3: "\<forall>r \<in> set (pets (local_conn m3)). p_id r = pet_id \<longrightarrow> p_is_deleted r = 1"
    unfolding pets3 db_def by (rule soft_delete_all)
  have cases: "m' = m3 \<or> is_online m \<and> m' = fst (sync_pet_to_remote m3 pet_id)"
    unfolding m'_def m3_def db_def delete_pet_fst Let_def by simp
  then consider (kept) "local_conn m' = local_conn m3"
    | (pushed) "is_online m" "snd (sync_pet_to_remote m3 pet_id)"
        "m' = fst (sync_pet_to_remote m3 pet_id)"
        "local_conn m' = mark_pet_synced (local_conn m3) pet_id"
    using sync_pet_to_remote_local_cases [of m3 pet_id] by auto
  note outcome = this
  show "select_pet (soft_delete_pet (local_conn m) ts pet_id) pet_id
           = Some (pet\<lparr>p_is_deleted := 1, p_updated_at := ts, p_sync_status := ''pending''\<rparr>)"
    using assms by (simp add: select_pet_soft_delete)
  have "map p_id (pets (local_conn m')) = map p_id (pets (local_conn m))"
  proof (cases rule: outcome)
    case kept
    show ?thesis
      unfolding kept pets3 db_def by (rule ids_soft_delete)
  next
    case pushed
    show ?thesis
      unfolding pushed(4) ids_mark_synced pets3 db_def by (rule ids_soft_delete)
  qed
  then show "map p_id (pets (local_conn (fst (delete_pet m pet_id)))) = map p_id (pets (local_conn m))"
    by (simp add: m'_def)
  have "\<forall>r\<in>set (pets (local_conn m')). p_id r = pet_id \<longrightarrow> p_is_deleted r = 1"
  proof (cases rule: outcome)
    case kept
    show ?thesis
      unfolding kept by (rule del3)
  next
    case pushed
    show ?thesis
      unfolding pushed(4) by (rule mark_synced_deleted [OF del3])
  qed
  then show "\<forall>r\<in>set (pets (local_conn (fst (delete_pet m pet_id)))). p_id r = pet_id \<longrightarrow> p_is_deleted r = 1"
    unfolding m'_def .
  then have "get_pet_by_id m' pet_id = None"
    unfolding m'_def by (rule get_pet_by_id_deleted)
  then show "get_pet_by_id (fst (delete_pet m pet_id)) pet_id = None"
    by (simp add: m'_def)
  have "\<exists>r. select_pet (local_conn m') pet_id = Some r \<and> p_is_deleted r = 1
           \<and> (p_sync_status r = ''pending''
              \<or> p_sync_status r = ''synced'' \<and> is_online m
                \<and> map_option p_is_deleted (select_pet (remote_db m') pet_id) = Some 1)"
  proof (cases rule: outcome)
    case kept
    have "select_pet (local_conn m') pet_id = Some del"
      unfolding kept by (rule sel3)
    then show ?thesis by (simp add: del_def)
  next
    case pushed
    from sync_pet_to_remote_pushed [OF pushed(2)] sel3
    have "select_pet (remote_db (fst (sync_pet_to_remote m3 pet_id))) pet_id
            = Some (del\<lparr>p_sync_status := ''synced''\<rparr>)"
      by auto
    then have rem: "select_pet (remote_db m') pet_id = Some (del\<lparr>p_sync_status := ''synced''\<rparr>)"
      unfolding pushed(3) .
    have "select_pet (mark_pet_synced (local_conn m3) pet_id) pet_id
            = Some (del\<lparr>p_sync_status := ''synced''\<rparr>)"
      unfolding select_pet_mark_synced sel3 by simp
    then have loc: "select_pet (local_conn m') pet_id = Some (del\<lparr>p_sync_status := ''synced''\<rparr>)"
      unfolding pushed(4) .
    show ?thesis
      unfolding rem loc using pushed(1) by (simp add: del_def)
  qed
  then show "\<exists>r. select_pet (local_conn (fst (delete_pet m pet_id))) pet_id = Some r \<and> p_is_deleted r = 1
           \<and> (p_sync_status r = ''pending''
              \<or> p_sync_status r = ''synced'' \<and> is_online m
                \<and> map_option p_is_deleted (select_pet (remote_db (fst (delete_pet m pet_id))) pet_id) = Some 1)"
    by (simp add: m'_def)
qed

subsection \<open>The row and the journal after a local mutation\<close>

lemma sync_pet_to_remote_frame [simp]:
  "sync_log (local_conn (fst (sync_pet_to_remote m i))) = sync_log (local_conn m)"
  "users (local_conn (fst (sync_pet_to_remote m i))) = users (local_conn m)"
  "foreign_keys (local_conn (fst (sync_pet_to_remote m i))) = foreign_keys (local_conn m)"
  "ticks (fst (sync_pet_to_remote m i)) = ticks m"
  "drawn (fst (sync_pet_to_remote m i)) = drawn m"
  "clock (fst (sync_pet_to_remote m i)) = clock m"
  "uuid4 (fst (sync_pet_to_remote m i)) = uuid4 m"
  by (auto simp: sync_pet_to_remote_def remote_write_def mark_pet_synced_def Let_def
      split: option.splits sum.splits)

lemma create_pet_result:
  "snd (create_pet m user_id name species breed age weight notes) =
     (if uuid4 m (drawn m) \<notin> set (map p_id (pets (local_conn m)))
         \<and> name \<noteq> SqlNull \<and> species \<noteq> SqlNull
         \<and> (foreign_keys (local_conn m) \<longrightarrow> user_id \<in> set (map u_id (users (local_conn m))))
         \<and> uuid4 m (drawn m + 1) \<notin> set (map l_id (sync_log (local_conn m)))
      then Some (uuid4 m (drawn m)) else None)"
  by (simp add: create_pet_def generate_id_def get_timestamp_def Let_def insert_pet_def
      pet_row_ok_def log_change_effect)



lemma delete_pet_journal:
  assumes "uuid4 m (drawn m) \<notin> set (map l_id (sync_log (local_conn m)))"
  shows "snd (delete_pet m pet_id)
       \<and> sync_log (local_conn (fst (delete_pet m pet_id)))
               = sync_log (local_conn m) @
                   [\<lparr>l_id = uuid4 m (drawn m), l_table_name = ''pets'', l_record_id = pet_id,
                     l_operation = ''DELETE'', l_timestamp = clock m (ticks m + 1), l_synced = 0\<rparr>]"
  using assms
  by (simp add: delete_pet_def get_timestamp_def Let_def log_change_effect soft_delete_pet_def)


lemma create_pet_fst:
  "fst (create_pet m user_id name species breed age weight notes) =
     (let pet_id = uuid4 m (drawn m);
          m2 = m\<lparr>drawn := drawn m + 1, ticks := ticks m + 1\<rparr>
      in case insert_pet (local_conn m)
                \<lparr>p_id = pet_id, p_user_id = user_id, p_name = name, p_species = species,
                 p_breed = breed, p_age = age, p_weight = weight, p_notes = notes,
                 p_created_at = clock m (ticks m), p_updated_at = clock m (ticks m),
                 p_is_deleted = 0, p_sync_status = ''pending''\<rparr> of
           Inl e \<Rightarrow> m2
         | Inr db \<Rightarrow>
             (let logged = log_change (m2\<lparr>local_conn := db\<rparr>) ''pets'' pet_id ''INSERT''
              in if snd logged = Inr () \<and> is_online m
                 then fst (sync_pet_to_remote (fst logged) pet_id) else fst logged))"
  by (simp add: create_pet_def generate_id_def get_timestamp_def Let_def case_prod_beta
      split: sum.splits)


lemma push_attempt_row:
  assumes "select_pet (local_conn m3) i = Some row"
  shows "select_pet (local_conn (fst (sync_pet_to_remote m3 i))) i = Some row
       \<or> is_online m3
         \<and> select_pet (local_conn (fst (sync_pet_to_remote m3 i))) i
             = Some (row\<lparr>p_sync_status := ''synced''\<rparr>)
         \<and> select_pet (remote_db (fst (sync_pet_to_remote m3 i))) i
             = Some (row\<lparr>p_sync_status := ''synced''\<rparr>)"
proof (cases "snd (sync_pet_to_remote m3 i)")
  case True
  have "select_pet (mark_pet_synced (local_conn m3) i) i = Some (row\<lparr>p_sync_status := ''synced''\<rparr>)"
    unfolding select_pet_mark_synced assms by simp
  moreover have "local_conn (fst (sync_pet_to_remote m3 i)) = mark_pet_synced (local_conn m3) i"
    using True by (simp add: sync_pet_to_remote_local)
  moreover from sync_pet_to_remote_pushed [OF True] assms
  have "is_online m3"
    and "select_pet (remote_db (fst (sync_pet_to_remote m3 i))) i = Some (row\<lparr>p_sync_status := ''synced''\<rparr>)"
    by auto
  ultimately show ?thesis by simp
next
  case False
  then have "local_conn (fst (sync_pet_to_remote m3 i)) = local_conn m3"
    by (simp add: sync_pet_to_remote_local)
  with assms show ?thesis by simp
qed

lemma mutation_row:
  assumes m3: "select_pet (local_conn m3) i = Some (row\<lparr>p_sync_status := ''pending''\<rparr>)"
    and on: "is_online m3 = is_online m"
    and m': "m' = (if c then fst (sync_pet_to_remote m3 i) else m3)"
  shows "\<exists>st. (st = ''pending''
              \<or> st = ''synced'' \<and> is_online m
                \<and> select_pet (remote_db m') i = Some (row\<lparr>p_sync_status := st\<rparr>))
           \<and> select_pet (local_conn m') i = Some (row\<lparr>p_sync_status := st\<rparr>)"
proof (cases c)
  case False
  with m3 m' show ?thesis by auto
next
  case True
  with m' have eq: "m' = fst (sync_pet_to_remote m3 i)" by simp
  from push_attempt_row [OF m3] show ?thesis
  proof
    assume "select_pet (local_conn (fst (sync_pet_to_remote m3 i))) i
              = Some (row\<lparr>p_sync_status := ''pending''\<rparr>)"
    then show ?thesis unfolding eq by blast
  next
    assume "is_online m3
         \<and> select_pet (local_conn (fst (sync_pet_to_remote m3 i))) i
             = Some (row\<lparr>p_sync_status := ''pending''\<rparr>\<lparr>p_sync_status := ''synced''\<rparr>)
         \<and> select_pet (remote_db (fst (sync_pet_to_remote m3 i))) i
             = Some (row\<lparr>p_sync_status := ''pending''\<rparr>\<lparr>p_sync_status := ''synced''\<rparr>)"
    then have "is_online m"
      and "select_pet (local_conn m') i = Some (row\<lparr>p_sync_status := ''synced''\<rparr>)"
      and "select_pet (remote_db m') i = Some (row\<lparr>p_sync_status := ''synced''\<rparr>)"
      unfolding eq on by simp_all
    then show ?thesis by blast
  qed
qed

lemma delete_pet_row:
  assumes "select_pet (local_conn m) i = Some pet"
  shows "\<exists>st. (st = ''pending''
              \<or> st = ''synced'' \<and> is_online m
                \<and> select_pet (remote_db (fst (delete_pet m i))) i
                    = Some (pet\<lparr>p_is_deleted := 1, p_updated_at := clock m (ticks m),
                               p_sync_status := st\<rparr>))
           \<and> select_pet (local_conn (fst (delete_pet m i))) i
               = Some (pet\<lparr>p_is_deleted := 1, p_updated_at := clock m (ticks m), p_sync_status := st\<rparr>)"
proof -
  define m3 where "m3 = fst (log_change (m\<lparr>ticks := ticks m + 1,
      local_conn := soft_delete_pet (local_conn m) (clock m (ticks m)) i\<rparr>) ''pets'' i ''DELETE'')"
  have sel: "select_pet (local_conn m3) i
      = Some (pet\<lparr>p_is_deleted := 1, p_updated_at := clock m (ticks m)\<rparr>\<lparr>p_sync_status := ''pending''\<rparr>)"
    using assms by (simp add: m3_def select_pet_soft_delete)
  have on: "is_online m3 = is_online m"
    by (simp add: m3_def)
  have "fst (delete_pet m i) = (if snd (log_change (m\<lparr>ticks := ticks m + 1,
      local_conn := soft_delete_pet (local_conn m) (clock m (ticks m)) i\<rparr>) ''pets'' i ''DELETE'') = Inr ()
        \<and> is_online m then fst (sync_pet_to_remote m3 i) else m3)"
    unfolding delete_pet_fst Let_def m3_def ..
  from mutation_row [OF sel on this] show ?thesis by simp
qed

lemma find_append_new:
  "\<forall>x \<in> set xs. \<not> P x \<Longrightarrow> P r \<Longrightarrow> find P (xs @ [r]) = Some r"
  by (induction xs) simp_all

lemma select_pet_insert_pet:
  assumes "insert_pet db r = Inr db'"
  shows "select_pet db' (p_id r) = Some r"
proof -
  from assms have new: "p_id r \<notin> set (map p_id (pets db))" and db': "pets db' = pets db @ [r]"
    by (auto simp: insert_pet_def split: if_splits)
  from new have "\<forall>x \<in> set (pets db). \<not> p_id x = p_id r"
    by (metis image_eqI set_map)
  then have "find (\<lambda>x. p_id x = p_id r) (pets db @ [r]) = Some r"
    by (rule find_append_new) simp
  then show ?thesis
    by (simp add: select_pet_def db')
qed

lemma create_pet_row_after:
  assumes ok: "snd (create_pet m user_id name species breed age weight notes) = Some pet_id"
  shows "pet_id = uuid4 m (drawn m)
       \<and> (\<exists>st. (st = ''pending''
                \<or> st = ''synced'' \<and> is_online m
                  \<and> select_pet (remote_db (fst (create_pet m user_id name species breed age weight notes))) pet_id
                      = Some \<lparr>p_id = pet_id, p_user_id = user_id, p_name = name, p_species = species,
                              p_breed = breed, p_age = age, p_weight = weight, p_notes = notes,
                              p_created_at = clock m (ticks m), p_updated_at = clock m (ticks m),
                              p_is_deleted = 0, p_sync_status = st\<rparr>)
           \<and> select_pet (local_conn (fst (create_pet m user_id name species breed age weight notes))) pet_id
               = Some \<lparr>p_id = pet_id, p_user_id = user_id, p_name = name, p_species = species,
                       p_breed = breed, p_age = age, p_weight = weight, p_notes = notes,
                       p_created_at = clock m (ticks m), p_updated_at = clock m (ticks m),
                       p_is_deleted = 0, p_sync_status = st\<rparr>)"
proof -
  define row where "row = \<lparr>p_id = uuid4 m (drawn m), p_user_id = user_id, p_name = name,
      p_species = species, p_breed = breed, p_age = age, p_weight = weight, p_notes = notes,
      p_created_at = clock m (ticks m), p_updated_at = clock m (ticks m),
      p_is_deleted = 0, p_sync_status = ''pending''\<rparr>"
  from ok have pid: "pet_id = uuid4 m (drawn m)"
    unfolding create_pet_result by (simp split: if_splits)
  have "\<exists>db. insert_pet (local_conn m) row = Inr db"
  proof (cases "insert_pet (local_conn m) row")
    case (Inl e)
    with ok show ?thesis
      by (simp add: create_pet_def generate_id_def get_timestamp_def Let_def row_def)
  next
    case (Inr db)
    then show ?thesis by blast
  qed
  then obtain db where db: "insert_pet (local_conn m) row = Inr db" ..
  define m3 where "m3 = fst (log_change (m\<lparr>drawn := drawn m + 1, ticks := ticks m + 1, local_conn := db\<rparr>)
      ''pets'' (uuid4 m (drawn m)) ''INSERT'')"
  from select_pet_insert_pet [OF db]
  have "select_pet (local_conn m3) (uuid4 m (drawn m)) = Some row"
    by (simp add: m3_def row_def)
  moreover have "row = row\<lparr>p_sync_status := ''pending''\<rparr>"
    by (simp add: row_def)
  ultimately have sel3: "select_pet (local_conn m3) (uuid4 m (drawn m)) = Some (row\<lparr>p_sync_status := ''pending''\<rparr>)"
    by simp
  have on: "is_online m3 = is_online m"
    by (simp add: m3_def)
  have "fst (create_pet m user_id name species breed age weight notes)
      = (if snd (log_change (m\<lparr>drawn := drawn m + 1, ticks := ticks m + 1, local_conn := db\<rparr>)
           ''pets'' (uuid4 m (drawn m)) ''INSERT'') = Inr () \<and> is_online m
         then fst (sync_pet_to_remote m3 (uuid4 m (drawn m))) else m3)"
    using db unfolding create_pet_fst Let_def m3_def row_def by simp
  from mutation_row [OF sel3 on this] pid show ?thesis
    by (simp add: row_def)
qed

subsection \<open>A push that goes through\<close>

lemma update_pet_effect:
  "update_pet m pet_id kwargs =
     (if filter (\<lambda>kv. fst kv \<in> set allowed_fields) kwargs = [] then (m, False)
      else (m\<lparr>ticks := ticks m + 1\<rparr>, False))"
  by (simp add: update_pet_def execute_with_list_def get_timestamp_def)

lemma pet_row_ok_bookkeeping [simp]:
  "pet_row_ok db (r\<lparr>p_is_deleted := d\<rparr>) = pet_row_ok db r"
  "pet_row_ok db (r\<lparr>p_updated_at := t\<rparr>) = pet_row_ok db r"
  by (simp_all add: pet_row_ok_def)

lemma push_reaches_remote:
  assumes on: "is_online m" "has_remote_conn m" and sel: "select_pet (local_conn m) i = Some r"
    and net: "network m (requests m)" and rok: "pet_row_ok (remote_db m) r"
  shows "snd (sync_pet_to_remote m i)"
    and "select_pet (remote_db (fst (sync_pet_to_remote m i))) i = Some (r\<lparr>p_sync_status := ''synced''\<rparr>)"
    and "select_pet (local_conn (fst (sync_pet_to_remote m i))) i = Some (r\<lparr>p_sync_status := ''synced''\<rparr>)"
proof -
  from sel have id: "p_id r = i" by (rule select_pet_id)
  show "snd (sync_pet_to_remote m i)"
    unfolding sync_pet_to_remote_effect [OF on sel] using net rok by simp
  show "select_pet (remote_db (fst (sync_pet_to_remote m i))) i = Some (r\<lparr>p_sync_status := ''synced''\<rparr>)"
    unfolding sync_pet_to_remote_effect [OF on sel] using net rok id
    by (simp add: select_pet_pets find_replace_same)
  show "select_pet (local_conn (fst (sync_pet_to_remote m i))) i = Some (r\<lparr>p_sync_status := ''synced''\<rparr>)"
    unfolding sync_pet_to_remote_effect [OF on sel] using net rok sel
    by (simp add: select_pet_mark_synced)
qed

lemma delete_pet_online:
  assumes sel: "select_pet (local_conn m) i = Some pet"
    and on: "is_online m" "has_remote_conn m"
    and fresh: "uuid4 m (drawn m) \<notin> set (map l_id (sync_log (local_conn m)))"
    and net: "network m (requests m)" and rok: "pet_row_ok (remote_db m) pet"
  shows "snd (delete_pet m i)"
    and "select_pet (remote_db (fst (delete_pet m i))) i
           = Some (pet\<lparr>p_is_deleted := 1, p_updated_at := clock m (ticks m), p_sync_status := ''synced''\<rparr>)"
    and "select_pet (local_conn (fst (delete_pet m i))) i
           = Some (pet\<lparr>p_is_deleted := 1, p_updated_at := clock m (ticks m), p_sync_status := ''synced''\<rparr>)"
proof -
  define m2 where "m2 = m\<lparr>ticks := ticks m + 1,
      local_conn := soft_delete_pet (local_conn m) (clock m (ticks m)) i\<rparr>"
  define m3 where "m3 = fst (log_change m2 ''pets'' i ''DELETE'')"
  define del where "del = pet\<lparr>p_is_deleted := 1, p_updated_at := clock m (ticks m), p_sync_status := ''pending''\<rparr>"
  have logged: "snd (log_change m2 ''pets'' i ''DELETE'') = Inr ()"
    using fresh by (simp add: log_change_effect m2_def soft_delete_pet_def)
  have on3: "is_online m3" "has_remote_conn m3"
    using on by (simp_all add: m3_def m2_def)
  have net3: "network m3 (requests m3)"
    using net by (simp add: m3_def m2_def)
  have sel3: "select_pet (local_conn m3) i = Some del"
    using sel by (simp add: m3_def m2_def del_def select_pet_soft_delete)
  have rok3: "pet_row_ok (remote_db m3) del"
    using rok by (simp add: m3_def m2_def del_def)
  have eq: "fst (delete_pet m i) = fst (sync_pet_to_remote m3 i)"
    unfolding delete_pet_fst Let_def m3_def m2_def using logged on(1) by (simp add: m2_def)
  show "snd (delete_pet m i)"
    using fresh by (simp add: delete_pet_journal)
  show "select_pet (remote_db (fst (delete_pet m i))) i
           = Some (pet\<lparr>p_is_deleted := 1, p_updated_at := clock m (ticks m), p_sync_status := ''synced''\<rparr>)"
    unfolding eq push_reaches_remote(2) [OF on3 sel3 net3 rok3] by (simp add: del_def)
  show "select_pet (local_conn (fst (delete_pet m i))) i
           = Some (pet\<lparr>p_is_deleted := 1, p_updated_at := clock m (ticks m), p_sync_status := ''synced''\<rparr>)"
    unfolding eq push_reaches_remote(3) [OF on3 sel3 net3 rok3] by (simp add: del_def)
qed

lemma rex_offline: "select_pet (local_conn offline_device) ''p1'' = Some rex"
  by (simp add: offline_device_def home_db_def select_pet_def rex_def)

lemma online_device_ready:
  "is_online online_device" "has_remote_conn online_device"
  "network online_device (requests online_device)"
  "pet_row_ok (remote_db online_device) rex"
  "uuid4 online_device (drawn online_device) \<notin> set (map l_id (sync_log (local_conn online_device)))"
  "clock online_device (ticks online_device) = ''2024-01-01T00:00:00''"
  by (simp_all add: online_device_def offline_device_def remote_start_def home_db_def
        pet_row_ok_def rex_def ann_def)

subsection \<open>The journal when its id is in use\<close>

lemma sync_user_to_remote_frame [simp]:
  "sync_log (local_conn (fst (sync_user_to_remote m i))) = sync_log (local_conn m)"
  "pets (local_conn (fst (sync_user_to_remote m i))) = pets (local_conn m)"
  "foreign_keys (local_conn (fst (sync_user_to_remote m i))) = foreign_keys (local_conn m)"
  by (auto simp: sync_user_to_remote_def remote_write_def mark_user_synced_def Let_def
      split: option.splits sum.splits)

lemma insert_pet_frame:
  "insert_pet db r = Inr db' \<Longrightarrow> sync_log db' = sync_log db \<and> users db' = users db
     \<and> foreign_keys db' = foreign_keys db"
  by (auto simp: insert_pet_def split: if_splits)














subsection \<open>The result dictionaries of the loops\<close>

lemma dict_incr_users [simp]:
  "dict_incr ''users'' [(''users'', PyInt a), (''pets'', PyInt b), (''status'', PyStr s)]
     = [(''users'', PyInt (a + 1)), (''pets'', PyInt b), (''status'', PyStr s)]"
  by simp

lemma dict_incr_pets [simp]:
  "dict_incr ''pets'' [(''users'', PyInt a), (''pets'', PyInt b), (''status'', PyStr s)]
     = [(''users'', PyInt a), (''pets'', PyInt (b + 1)), (''status'', PyStr s)]"
  "dict_incr ''pets'' [(''pets'', PyInt b), (''status'', PyStr s)]
     = [(''pets'', PyInt (b + 1)), (''status'', PyStr s)]"
  by simp_all

subsection \<open>Push, pull and full sync unfolded\<close>

lemma sync_all_pending_unfold:
  "sync_all_pending m =
     (if snd (check_connection m)
      then (let m1 = fst (check_connection m);
                pushed = sync_users_loop m1
                  (map u_id (filter (\<lambda>r. u_sync_status r = ''pending'') (users (local_conn m1))))
                  [(''users'', PyInt 0), (''pets'', PyInt 0), (''status'', PyStr ''online'')]
            in sync_pets_loop (fst pushed)
                 (map p_id (filter (\<lambda>r. p_sync_status r = ''pending'') (pets (local_conn (fst pushed)))))
                 (snd pushed))
      else (fst (check_connection m),
            [(''users'', PyInt 0), (''pets'', PyInt 0), (''status'', PyStr ''offline'')]))"
  by (cases "check_connection m")
     (simp add: sync_all_pending_def Let_def case_prod_beta del: dict_incr.simps)

lemma pull_from_remote_unfold:
  "pull_from_remote m user_id =
     (if \<not> is_online m \<or> \<not> has_remote_conn m
      then (m, [(''pets'', PyInt 0), (''status'', PyStr ''offline'')])
      else if network m (requests m)
      then (let pulled = pull_loop (local_conn m)
                  (filter (\<lambda>r. p_user_id r = user_id) (pets (remote_db m)))
                  [(''pets'', PyInt 0), (''status'', PyStr ''online'')]
            in (m\<lparr>requests := requests m + 1, local_conn := fst pulled\<rparr>, snd pulled))
      else (m\<lparr>requests := requests m + 1\<rparr>, [(''pets'', PyInt 0), (''status'', PyStr ''online'')]))"
  by (simp add: pull_from_remote_def remote_select_pets_def Let_def case_prod_beta
        del: dict_incr.simps pull_loop.simps)

subsection \<open>The pull loop\<close>

lemma pet_row_ok_cong:
  "users db1 = users db \<Longrightarrow> foreign_keys db1 = foreign_keys db \<Longrightarrow> pet_row_ok db1 r = pet_row_ok db r"
  by (simp add: pet_row_ok_def)

lemma insert_or_replace_pet_frame:
  assumes "insert_or_replace_pet db r = Inr db1"
  shows "users db1 = users db" "foreign_keys db1 = foreign_keys db" "sync_log db1 = sync_log db"
  using assms by (auto simp: insert_or_replace_pet_def split: if_splits)

lemma insert_or_replace_pet_ok:
  "pet_row_ok db r \<Longrightarrow> \<exists>db1. insert_or_replace_pet db r = Inr db1"
  by (simp add: insert_or_replace_pet_def)

lemma pull_loop_step:
  "pull_loop db (r # rs) pulled =
     (if (case select_pet db (p_id r) of None \<Rightarrow> True | Some l \<Rightarrow> p_updated_at l < p_updated_at r)
      then (case insert_or_replace_pet db (r\<lparr>p_sync_status := ''synced''\<rparr>) of
              Inl e \<Rightarrow> (db, pulled)
            | Inr db1 \<Rightarrow> pull_loop db1 rs (dict_incr ''pets'' pulled))
      else pull_loop db rs pulled)"
  by (cases "select_pet db (p_id r)") (simp_all del: dict_incr.simps)

lemma pull_loop_spec_aux:
  fixes newer :: "database \<Rightarrow> pet_row \<Rightarrow> bool"
  assumes nw: "\<And>db r. newer db r
      \<longleftrightarrow> (case select_pet db (p_id r) of None \<Rightarrow> True | Some l \<Rightarrow> p_updated_at l < p_updated_at r)"
    and dist: "distinct (map p_id rs)"
    and ok: "\<forall>r \<in> set rs. pet_row_ok db r"
  shows "\<exists>db'. pull_loop db rs [(''pets'', PyInt c), (''status'', PyStr s)]
             = (db', [(''pets'', PyInt (c + int (length (filter (newer db) rs)))), (''status'', PyStr s)])
        \<and> (\<forall>r \<in> set rs. select_pet db' (p_id r)
              = (if newer db r then Some (r\<lparr>p_sync_status := ''synced''\<rparr>) else select_pet db (p_id r)))
        \<and> (\<forall>j. j \<notin> set (map p_id rs) \<longrightarrow> select_pet db' j = select_pet db j)
        \<and> users db' = users db \<and> foreign_keys db' = foreign_keys db \<and> sync_log db' = sync_log db"
  using dist ok
proof (induction rs arbitrary: db c)
  case Nil
  show ?case by simp
next
  case (Cons r rs)
  from Cons.prems have fresh: "p_id r \<notin> set (map p_id rs)" and dist: "distinct (map p_id rs)"
    by simp_all
  from Cons.prems have ok_r: "pet_row_ok db r" and ok_rs: "\<forall>x \<in> set rs. pet_row_ok db x"
    by simp_all
  have other: "p_id x \<noteq> p_id r" if "x \<in> set rs" for x
    using that fresh by (metis image_eqI set_map)
  show ?case
  proof (cases "newer db r")
    case False
    from Cons.IH [OF dist ok_rs, of c] obtain db' where
      loop: "pull_loop db rs [(''pets'', PyInt c), (''status'', PyStr s)]
             = (db', [(''pets'', PyInt (c + int (length (filter (newer db) rs)))), (''status'', PyStr s)])"
      and rows: "\<forall>x \<in> set rs. select_pet db' (p_id x)
              = (if newer db x then Some (x\<lparr>p_sync_status := ''synced''\<rparr>) else select_pet db (p_id x))"
      and rest: "\<forall>j. j \<notin> set (map p_id rs) \<longrightarrow> select_pet db' j = select_pet db j"
      and frame: "users db' = users db" "foreign_keys db' = foreign_keys db" "sync_log db' = sync_log db"
      by blast
    have 1: "pull_loop db (r # rs) [(''pets'', PyInt c), (''status'', PyStr s)]
             = (db', [(''pets'', PyInt (c + int (length (filter (newer db) (r # rs))))), (''status'', PyStr s)])"
      using False loop nw [of db r] unfolding pull_loop_step by simp
    have r_kept: "select_pet db' (p_id r) = select_pet db (p_id r)"
      using rest fresh by blast
    have 2: "\<forall>x \<in> set (r # rs). select_pet db' (p_id x)
              = (if newer db x then Some (x\<lparr>p_sync_status := ''synced''\<rparr>) else select_pet db (p_id x))"
    proof
      fix x assume "x \<in> set (r # rs)"
      then consider "x = r" | "x \<in> set rs" by auto
      then show "select_pet db' (p_id x)
              = (if newer db x then Some (x\<lparr>p_sync_status := ''synced''\<rparr>) else select_pet db (p_id x))"
      proof cases
        case 1
        with False r_kept show ?thesis by simp
      next
        case 2
        with rows show ?thesis by blast
      qed
    qed
    have 3: "\<forall>j. j \<notin> set (map p_id (r # rs)) \<longrightarrow> select_pet db' j = select_pet db j"
      using rest by simp
    from 1 2 3 frame show ?thesis by blast
  next
    case True
    from insert_or_replace_pet_ok [of db "r\<lparr>p_sync_status := ''synced''\<rparr>"] ok_r
    obtain db1 where db1: "insert_or_replace_pet db (r\<lparr>p_sync_status := ''synced''\<rparr>) = Inr db1"
      by auto
    note fr1 = insert_or_replace_pet_frame [OF db1]
    have same: "select_pet db1 (p_id r) = Some (r\<lparr>p_sync_status := ''synced''\<rparr>)"
      using select_pet_replace_same [OF db1] by simp
    have diff: "select_pet db1 j = select_pet db j" if "j \<noteq> p_id r" for j
      using select_pet_replace_other [OF db1, of j] that by simp
    have ok1: "\<forall>x \<in> set rs. pet_row_ok db1 x"
      using ok_rs pet_row_ok_cong [OF fr1(1) fr1(2)] by blast
    have nw1: "newer db1 x = newer db x" if "x \<in> set rs" for x
      unfolding nw using diff [OF other [OF that]] by simp
    then have cnt: "filter (newer db1) rs = filter (newer db) rs"
      by (metis (mono_tags, lifting) filter_cong)
    from Cons.IH [OF dist ok1, of "c + 1"] obtain db' where
      loop: "pull_loop db1 rs [(''pets'', PyInt (c + 1)), (''status'', PyStr s)]
             = (db', [(''pets'', PyInt (c + 1 + int (length (filter (newer db1) rs)))), (''status'', PyStr s)])"
      and rows: "\<forall>x \<in> set rs. select_pet db' (p_id x)
              = (if newer db1 x then Some (x\<lparr>p_sync_status := ''synced''\<rparr>) else select_pet db1 (p_id x))"
      and rest: "\<forall>j. j \<notin> set (map p_id rs) \<longrightarrow> select_pet db' j = select_pet db1 j"
      and frame: "users db' = users db1" "foreign_keys db' = foreign_keys db1" "sync_log db' = sync_log db1"
      by blast
    have 1: "pull_loop db (r # rs) [(''pets'', PyInt c), (''status'', PyStr s)]
             = (db', [(''pets'', PyInt (c + int (length (filter (newer db) (r # rs))))), (''status'', PyStr s)])"
      using True loop nw [of db r] db1 unfolding pull_loop_step cnt by (simp add: add.assoc)
    have r_new: "select_pet db' (p_id r) = Some (r\<lparr>p_sync_status := ''synced''\<rparr>)"
      using rest fresh same by metis
    have 2: "\<forall>x \<in> set (r # rs). select_pet db' (p_id x)
              = (if newer db x then Some (x\<lparr>p_sync_status := ''synced''\<rparr>) else select_pet db (p_id x))"
    proof
      fix x assume "x \<in> set (r # rs)"
      then consider "x = r" | "x \<in> set rs" by auto
      then show "select_pet db' (p_id x)
              = (if newer db x then Some (x\<lparr>p_sync_status := ''synced''\<rparr>) else select_pet db (p_id x))"
      proof cases
        case 1
        with True r_new show ?thesis by simp
      next
        case 2
        from rows 2 have "select_pet db' (p_id x)
              = (if newer db1 x then Some (x\<lparr>p_sync_status := ''synced''\<rparr>) else select_pet db1 (p_id x))"
          by blast
        then show ?thesis
          unfolding nw1 [OF 2] diff [OF other [OF 2]] .
      qed
    qed
    have 3: "\<forall>j. j \<notin> set (map p_id (r # rs)) \<longrightarrow> select_pet db' j = select_pet db j"
    proof (intro allI impI)
      fix j assume "j \<notin> set (map p_id (r # rs))"
      then have "j \<noteq> p_id r" "j \<notin> set (map p_id rs)" by simp_all
      with rest diff show "select_pet db' j = select_pet db j" by metis
    qed
    from 1 2 3 frame fr1 show ?thesis by (metis (no_types, lifting))
  qed
qed

subsection \<open>Offline no-op\<close>

text \<open>
  C4. When the remote connector is unavailable, push and pull do nothing: \<^verbatim>\<open>pull_from_remote\<close>
  with \<open>is_online\<close> false (or no remote connection) returns the manager as it was and the
  result \<^verbatim>\<open>{"pets": 0, "status": "offline"}\<close>; \<^verbatim>\<open>sync_all_pending\<close> whose connection check
  fails returns \<^verbatim>\<open>{"users": 0, "pets": 0, "status": "offline"}\<close> and leaves the local database
  (so every row's \<open>sync_status\<close>) and the remote database unchanged.
\<close>

theorem offline_no_op:
  "(\<not> is_online m \<or> \<not> has_remote_conn m \<longrightarrow>
      pull_from_remote m user_id = (m, [(''pets'', PyInt 0), (''status'', PyStr ''offline'')]))
   \<and> (snd (check_connection m) = False \<longrightarrow>
      snd (sync_all_pending m)
        = [(''users'', PyInt 0), (''pets'', PyInt 0), (''status'', PyStr ''offline'')]
      \<and> local_conn (fst (sync_all_pending m)) = local_conn m
      \<and> remote_db (fst (sync_all_pending m)) = remote_db m
      \<and> \<not> is_online (fst (sync_all_pending m)))"
  by (auto simp: pull_from_remote_def sync_all_pending_def check_connection_def
        try_connect_remote_def Let_def split: prod.splits if_splits bool.splits)

theorem offline_no_op_witness:
  "\<not> is_online offline_device \<and> snd (check_connection offline_device) = False
   \<and> pull_from_remote offline_device ''u1''
       = (offline_device, [(''pets'', PyInt 0), (''status'', PyStr ''offline'')])
   \<and> snd (sync_all_pending offline_device)
       = [(''users'', PyInt 0), (''pets'', PyInt 0), (''status'', PyStr ''offline'')]
   \<and> pets (local_conn (fst (sync_all_pending offline_device))) = [rex]"
proof -
  have off: "\<not> is_online offline_device"
    by (simp add: offline_device_def)
  have chk: "snd (check_connection offline_device) = False"
    by (simp add: check_connection_def try_connect_remote_def offline_device_def)
  have loc: "pets (local_conn offline_device) = [rex]"
    by (simp add: offline_device_def home_db_def)
  show ?thesis
    using offline_no_op [of offline_device "''u1''"] off chk loc by simp
qed

subsection \<open>Updates without a recognized field\<close>

text \<open>
  C10. When no key of the keyword arguments is one of \<^verbatim>\<open>name\<close>, \<^verbatim>\<open>species\<close>,
  \<^verbatim>\<open>breed\<close>, \<^verbatim>\<open>age\<close>, \<^verbatim>\<open>weight\<close>, \<^verbatim>\<open>notes\<close> (in particular when there are none),
  \<^verbatim>\<open>update_pet\<close> returns \<^verbatim>\<open>False\<close> and the whole state is as before: no row, timestamp,
  status or journal entry changes and the clock is not even read. For any arguments, the keys
  outside that set are dropped without error: the call behaves as the call with only the
  recognized keys.
\<close>

theorem update_pet_unrecognized:
  "((\<forall>kv \<in> set kwargs. fst kv \<notin> {''name'', ''species'', ''breed'', ''age'', ''weight'', ''notes''})
      \<longrightarrow> update_pet m pet_id kwargs = (m, False))
   \<and> update_pet m pet_id kwargs
       = update_pet m pet_id
           (filter (\<lambda>kv. fst kv \<in> {''name'', ''species'', ''breed'', ''age'', ''weight'', ''notes''}) kwargs)"
proof -
  have fields: "set allowed_fields = {''name'', ''species'', ''breed'', ''age'', ''weight'', ''notes''}"
    by (simp add: allowed_fields_def)
  have "(\<forall>kv \<in> set kwargs. fst kv \<notin> set allowed_fields) \<longrightarrow> update_pet m pet_id kwargs = (m, False)"
    by (simp add: update_pet_def filter_empty_conv)
  moreover have "update_pet m pet_id kwargs
       = update_pet m pet_id (filter (\<lambda>kv. fst kv \<in> set allowed_fields) kwargs)"
    by (simp add: update_pet_def)
  ultimately show ?thesis
    unfolding fields by blast
qed

theorem update_pet_unrecognized_witness:
  "set (map fst [(''colour'', SqlText ''brown''), (''id'', SqlText ''p2'')])
     \<inter> {''name'', ''species'', ''breed'', ''age'', ''weight'', ''notes''} = {}
   \<and> update_pet offline_device ''p1'' [(''colour'', SqlText ''brown''), (''id'', SqlText ''p2'')]
       = (offline_device, False)"
proof -
  have none: "\<forall>kv \<in> set [(''colour'', SqlText ''brown''), (''id'', SqlText ''p2'')].
      fst kv \<notin> {''name'', ''species'', ''breed'', ''age'', ''weight'', ''notes''}"
    by simp
  from update_pet_unrecognized [THEN conjunct1, THEN mp, OF none]
  have "update_pet offline_device ''p1'' [(''colour'', SqlText ''brown''), (''id'', SqlText ''p2'')]
       = (offline_device, False)" .
  then show ?thesis by simp
qed

subsection \<open>Push of one record\<close>

text \<open>
  C2. With the connector available and the local row present, pushing one record (a pet or a
  user) sends the local row with \<open>sync_status\<close> replaced by \<^verbatim>\<open>'synced'\<close>, whatever the
  local status is. When the remote write succeeds the push returns \<^verbatim>\<open>True\<close>, the remote row
  with that id is the local row with status \<^verbatim>\<open>'synced'\<close>, and so is the local row. When the
  remote write fails the push returns \<^verbatim>\<open>False\<close> (no exception reaches the caller) and the
  local database, hence a \<^verbatim>\<open>'pending'\<close> status, and the remote database are as before.
\<close>

theorem push_record:
  assumes "is_online m" and "has_remote_conn m"
  shows "(select_pet (local_conn m) pet_id = Some pet \<longrightarrow>
      (if snd (remote_write m (\<lambda>db. insert_or_replace_pet db (pet\<lparr>p_sync_status := ''synced''\<rparr>))) = Inr ()
       then snd (sync_pet_to_remote m pet_id)
          \<and> select_pet (remote_db (fst (sync_pet_to_remote m pet_id))) pet_id
              = Some (pet\<lparr>p_sync_status := ''synced''\<rparr>)
          \<and> select_pet (local_conn (fst (sync_pet_to_remote m pet_id))) pet_id
              = Some (pet\<lparr>p_sync_status := ''synced''\<rparr>)
       else \<not> snd (sync_pet_to_remote m pet_id)
          \<and> local_conn (fst (sync_pet_to_remote m pet_id)) = local_conn m
          \<and> remote_db (fst (sync_pet_to_remote m pet_id)) = remote_db m))
   \<and> (select_user (local_conn m) user_id = Some user \<longrightarrow>
      (if snd (remote_write m (\<lambda>db. insert_or_replace_user db (user\<lparr>u_sync_status := ''synced''\<rparr>))) = Inr ()
       then snd (sync_user_to_remote m user_id)
          \<and> select_user (remote_db (fst (sync_user_to_remote m user_id))) user_id
              = Some (user\<lparr>u_sync_status := ''synced''\<rparr>)
          \<and> select_user (local_conn (fst (sync_user_to_remote m user_id))) user_id
              = Some (user\<lparr>u_sync_status := ''synced''\<rparr>)
       else \<not> snd (sync_user_to_remote m user_id)
          \<and> local_conn (fst (sync_user_to_remote m user_id)) = local_conn m
          \<and> remote_db (fst (sync_user_to_remote m user_id)) = remote_db m))"
proof (intro conjI impI)
  assume sel: "select_pet (local_conn m) pet_id = Some pet"
  then have id: "p_id pet = pet_id" by (rule select_pet_id)
  have ok: "snd (remote_write m (\<lambda>db. insert_or_replace_pet db (pet\<lparr>p_sync_status := ''synced''\<rparr>))) = Inr ()
      \<longleftrightarrow> network m (requests m) \<and> pet_row_ok (remote_db m) pet"
    by (simp add: remote_write_ok insert_or_replace_pet_def)
  show "if snd (remote_write m (\<lambda>db. insert_or_replace_pet db (pet\<lparr>p_sync_status := ''synced''\<rparr>))) = Inr ()
       then snd (sync_pet_to_remote m pet_id)
          \<and> select_pet (remote_db (fst (sync_pet_to_remote m pet_id))) pet_id
              = Some (pet\<lparr>p_sync_status := ''synced''\<rparr>)
          \<and> select_pet (local_conn (fst (sync_pet_to_remote m pet_id))) pet_id
              = Some (pet\<lparr>p_sync_status := ''synced''\<rparr>)
       else \<not> snd (sync_pet_to_remote m pet_id)
          \<and> local_conn (fst (sync_pet_to_remote m pet_id)) = local_conn m
          \<and> remote_db (fst (sync_pet_to_remote m pet_id)) = remote_db m"
    unfolding ok sync_pet_to_remote_effect [OF assms sel]
    using sel id by (simp add: select_pet_mark_synced select_pet_pets find_replace_same)
next
  assume sel: "select_user (local_conn m) user_id = Some user"
  then have id: "u_id user = user_id" by (rule select_user_id)
  have ok: "snd (remote_write m (\<lambda>db. insert_or_replace_user db (user\<lparr>u_sync_status := ''synced''\<rparr>))) = Inr ()
      \<longleftrightarrow> network m (requests m)
          \<and> (\<exists>db. insert_or_replace_user (remote_db m) (user\<lparr>u_sync_status := ''synced''\<rparr>) = Inr db)"
    by (simp add: remote_write_ok)
  show "if snd (remote_write m (\<lambda>db. insert_or_replace_user db (user\<lparr>u_sync_status := ''synced''\<rparr>))) = Inr ()
       then snd (sync_user_to_remote m user_id)
          \<and> select_user (remote_db (fst (sync_user_to_remote m user_id))) user_id
              = Some (user\<lparr>u_sync_status := ''synced''\<rparr>)
          \<and> select_user (local_conn (fst (sync_user_to_remote m user_id))) user_id
              = Some (user\<lparr>u_sync_status := ''synced''\<rparr>)
       else \<not> snd (sync_user_to_remote m user_id)
          \<and> local_conn (fst (sync_user_to_remote m user_id)) = local_conn m
          \<and> remote_db (fst (sync_user_to_remote m user_id)) = remote_db m"
    unfolding ok sync_user_to_remote_effect [OF assms sel]
    using sel id select_user_replace_same [of "remote_db m" "user\<lparr>u_sync_status := ''synced''\<rparr>"]
    by (auto simp: select_user_mark_synced split: sum.splits)
qed

lemma sel_rex: "select_pet (local_conn online_device) ''p1'' = Some rex"
  by (simp add: online_device_def offline_device_def home_db_def select_pet_def rex_def)

lemma sel_ann: "select_user (local_conn online_device) ''u1'' = Some ann"
  by (simp add: online_device_def offline_device_def home_db_def select_user_def ann_def)

theorem push_record_witness:
  "is_online online_device \<and> has_remote_conn online_device
   \<and> select_pet (local_conn online_device) ''p1'' = Some rex
   \<and> p_sync_status rex = ''pending''
   \<and> snd (sync_pet_to_remote online_device ''p1'')
   \<and> select_pet (remote_db (fst (sync_pet_to_remote online_device ''p1''))) ''p1''
       = Some (rex\<lparr>p_sync_status := ''synced''\<rparr>)
   \<and> select_user (local_conn online_device) ''u1'' = Some ann
   \<and> snd (sync_user_to_remote online_device ''u1'')
   \<and> select_user (remote_db (fst (sync_user_to_remote online_device ''u1''))) ''u1''
       = Some (ann\<lparr>u_sync_status := ''synced''\<rparr>)"
proof -
  have on: "is_online online_device" "has_remote_conn online_device"
    by (simp_all add: online_device_def)
  have wp: "snd (remote_write online_device
               (\<lambda>db. insert_or_replace_pet db (rex\<lparr>p_sync_status := ''synced''\<rparr>))) = Inr ()"
    by (simp add: remote_write_ok insert_or_replace_pet_def pet_row_ok_def online_device_def
          offline_device_def remote_start_def rex_def ann_def)
  have wu: "snd (remote_write online_device
               (\<lambda>db. insert_or_replace_user db (ann\<lparr>u_sync_status := ''synced''\<rparr>))) = Inr ()"
    by (simp add: remote_write_ok insert_or_replace_user_def online_device_def
          offline_device_def remote_start_def Let_def)
  have st: "p_sync_status rex = ''pending''"
    by (simp add: rex_def)
  show ?thesis
    using push_record [OF on, of "''p1''" rex "''u1''" ann] sel_rex sel_ann wp wu on st
    by simp
qed

subsection \<open>Pull: last write wins\<close>

text \<open>
  C1. When \<^verbatim>\<open>pull_from_remote(owner_id)\<close> runs online, the fetch succeeds, the remote ids
  are distinct (the primary key) and the local \<^verbatim>\<open>INSERT OR REPLACE\<close> raises no constraint
  error, then for every remote row of the owner: if there is no local row with that id, or
  the local \<open>updated_at\<close> is strictly less than the remote one, the local row becomes the
  remote row with \<open>sync_status = 'synced'\<close>; otherwise the local row is what it was. In
  particular a local row with the same \<open>updated_at\<close> is kept unchanged. The count returned is
  the number of rows overwritten.
\<close>

theorem pull_last_write_wins:
  assumes "is_online m" and "has_remote_conn m" and "network m (requests m)"
    and "distinct (map p_id (pets (remote_db m)))"
    and "\<forall>r \<in> set (pets (remote_db m)). p_user_id r = user_id \<longrightarrow> pet_row_ok (local_conn m) r"
  shows "(\<forall>r \<in> set (pets (remote_db m)). p_user_id r = user_id \<longrightarrow>
            select_pet (local_conn (fst (pull_from_remote m user_id))) (p_id r)
              = (if (case select_pet (local_conn m) (p_id r) of
                       None \<Rightarrow> True | Some l \<Rightarrow> p_updated_at l < p_updated_at r)
                 then Some (r\<lparr>p_sync_status := ''synced''\<rparr>)
                 else select_pet (local_conn m) (p_id r)))
       \<and> (\<forall>r \<in> set (pets (remote_db m)). \<forall>l. p_user_id r = user_id
            \<and> select_pet (local_conn m) (p_id r) = Some l \<and> p_updated_at l = p_updated_at r \<longrightarrow>
            select_pet (local_conn (fst (pull_from_remote m user_id))) (p_id r) = Some l)
       \<and> snd (pull_from_remote m user_id)
           = [(''pets'', PyInt (int (length (filter
                 (\<lambda>r. p_user_id r = user_id
                    \<and> (case select_pet (local_conn m) (p_id r) of
                          None \<Rightarrow> True | Some l \<Rightarrow> p_updated_at l < p_updated_at r))
                 (pets (remote_db m)))))),
              (''status'', PyStr ''online'')]"
proof -
  define newer :: "database \<Rightarrow> pet_row \<Rightarrow> bool" where "newer = (\<lambda>db r. case select_pet db (p_id r) of
      None \<Rightarrow> True | Some l \<Rightarrow> p_updated_at l < p_updated_at r)"
  define rs where "rs = filter (\<lambda>r. p_user_id r = user_id) (pets (remote_db m))"
  have dist: "distinct (map p_id rs)"
    unfolding rs_def using assms(4) by (rule distinct_map_filter)
  have ok: "\<forall>r \<in> set rs. pet_row_ok (local_conn m) r"
    unfolding rs_def using assms(5) by simp
  from pull_loop_spec_aux [of newer rs "local_conn m" 0 "''online''", OF _ dist ok]
  obtain db' where loop: "pull_loop (local_conn m) rs [(''pets'', PyInt 0), (''status'', PyStr ''online'')]
             = (db', [(''pets'', PyInt (0 + int (length (filter (newer (local_conn m)) rs)))),
                      (''status'', PyStr ''online'')])"
    and rows: "\<forall>r \<in> set rs. select_pet db' (p_id r)
        = (if newer (local_conn m) r then Some (r\<lparr>p_sync_status := ''synced''\<rparr>)
           else select_pet (local_conn m) (p_id r))"
    unfolding newer_def by blast
  have pull: "pull_from_remote m user_id
      = (m\<lparr>requests := requests m + 1, local_conn := db'\<rparr>,
         [(''pets'', PyInt (int (length (filter (newer (local_conn m)) rs)))), (''status'', PyStr ''online'')])"
    using assms(1-3) loop unfolding pull_from_remote_unfold Let_def rs_def by simp
  have cnt: "filter (newer (local_conn m)) rs
      = filter (\<lambda>r. p_user_id r = user_id \<and> newer (local_conn m) r) (pets (remote_db m))"
    unfolding rs_def by simp
  have 1: "\<forall>r \<in> set (pets (remote_db m)). p_user_id r = user_id \<longrightarrow>
            select_pet (local_conn (fst (pull_from_remote m user_id))) (p_id r)
              = (if newer (local_conn m) r then Some (r\<lparr>p_sync_status := ''synced''\<rparr>)
                 else select_pet (local_conn m) (p_id r))"
  proof (intro ballI impI)
    fix r assume "r \<in> set (pets (remote_db m))" "p_user_id r = user_id"
    then have "r \<in> set rs" by (simp add: rs_def)
    with rows have "select_pet db' (p_id r)
        = (if newer (local_conn m) r then Some (r\<lparr>p_sync_status := ''synced''\<rparr>)
           else select_pet (local_conn m) (p_id r))"
      by blast
    then show "select_pet (local_conn (fst (pull_from_remote m user_id))) (p_id r)
              = (if newer (local_conn m) r then Some (r\<lparr>p_sync_status := ''synced''\<rparr>)
                 else select_pet (local_conn m) (p_id r))"
      unfolding pull by simp
  qed
  have 2: "\<forall>r \<in> set (pets (remote_db m)). \<forall>l. p_user_id r = user_id
            \<and> select_pet (local_conn m) (p_id r) = Some l \<and> p_updated_at l = p_updated_at r \<longrightarrow>
            select_pet (local_conn (fst (pull_from_remote m user_id))) (p_id r) = Some l"
  proof (intro ballI allI impI)
    fix r l
    assume r: "r \<in> set (pets (remote_db m))"
      and "p_user_id r = user_id \<and> select_pet (local_conn m) (p_id r) = Some l
           \<and> p_updated_at l = p_updated_at r"
    then have u: "p_user_id r = user_id" and l: "select_pet (local_conn m) (p_id r) = Some l"
      and eq: "p_updated_at l = p_updated_at r"
      by simp_all
    from l eq have "\<not> newer (local_conn m) r"
      by (simp add: newer_def)
    with 1 r u l show "select_pet (local_conn (fst (pull_from_remote m user_id))) (p_id r) = Some l"
      by metis
  qed
  have 3: "snd (pull_from_remote m user_id)
      = [(''pets'', PyInt (int (length (filter
            (\<lambda>r. p_user_id r = user_id \<and> newer (local_conn m) r) (pets (remote_db m)))))),
         (''status'', PyStr ''online'')]"
    unfolding pull cnt by simp
  from 1 2 3 show ?thesis
    unfolding newer_def by blast
qed

lemma pulling_device_facts:
  "is_online pulling_device" "has_remote_conn pulling_device"
  "network pulling_device (requests pulling_device)"
  "pets (remote_db pulling_device)
     = [rex\<lparr>p_name := SqlText ''Rex II'', p_updated_at := ''2024-01-01T00:00:10'',
            p_sync_status := ''synced''\<rparr>,
        tom, bella\<lparr>p_notes := SqlText ''bold'', p_sync_status := ''synced''\<rparr>]"
  "foreign_keys (local_conn pulling_device)"
  "map u_id (users (local_conn pulling_device)) = [''u1'']"
  "select_pet (local_conn pulling_device) ''p1'' = Some rex"
  "select_pet (local_conn pulling_device) ''p2'' = None"
  "select_pet (local_conn pulling_device) ''p3'' = Some bella"
  by (simp_all add: pulling_device_def online_device_def offline_device_def remote_home_def
        home_db_def select_pet_def rex_def bella_def ann_def)

lemma sample_pets:
  "p_id rex = ''p1''" "p_id tom = ''p2''" "p_id bella = ''p3''"
  "p_user_id rex = ''u1''" "p_user_id tom = ''u1''" "p_user_id bella = ''u1''"
  "p_updated_at rex = ''2024-01-01T00:00:00''" "p_updated_at tom = ''2024-01-01T00:00:05''"
  "p_updated_at bella = ''2024-01-01T00:00:00''"
  "p_name rex \<noteq> SqlNull" "p_name tom \<noteq> SqlNull" "p_name bella \<noteq> SqlNull"
  "p_species rex \<noteq> SqlNull" "p_species tom \<noteq> SqlNull" "p_species bella \<noteq> SqlNull"
  "tom\<lparr>p_sync_status := ''synced''\<rparr> = tom"
  by (simp_all add: rex_def tom_def bella_def)

theorem pull_last_write_wins_witness:
  "is_online pulling_device \<and> has_remote_conn pulling_device
   \<and> network pulling_device (requests pulling_device)
   \<and> distinct (map p_id (pets (remote_db pulling_device)))
   \<and> select_pet (local_conn (fst (pull_from_remote pulling_device ''u1''))) ''p1''
       = Some (rex\<lparr>p_name := SqlText ''Rex II'', p_updated_at := ''2024-01-01T00:00:10'',
                   p_sync_status := ''synced''\<rparr>)
   \<and> select_pet (local_conn (fst (pull_from_remote pulling_device ''u1''))) ''p2'' = Some tom
   \<and> select_pet (local_conn (fst (pull_from_remote pulling_device ''u1''))) ''p3'' = Some bella
   \<and> snd (pull_from_remote pulling_device ''u1'') = [(''pets'', PyInt 2), (''status'', PyStr ''online'')]"
proof -
  have dist: "distinct (map p_id (pets (remote_db pulling_device)))"
    by (simp add: pulling_device_facts sample_pets)
  have ok: "\<forall>r \<in> set (pets (remote_db pulling_device)).
              p_user_id r = ''u1'' \<longrightarrow> pet_row_ok (local_conn pulling_device) r"
    by (simp add: pulling_device_facts sample_pets pet_row_ok_def)
  note pulled = pull_last_write_wins [OF pulling_device_facts(1-3) dist ok]
  from pulled [THEN conjunct1]
  have "select_pet (local_conn (fst (pull_from_remote pulling_device ''u1''))) ''p1''
       = Some (rex\<lparr>p_name := SqlText ''Rex II'', p_updated_at := ''2024-01-01T00:00:10'',
                   p_sync_status := ''synced''\<rparr>)"
    and "select_pet (local_conn (fst (pull_from_remote pulling_device ''u1''))) ''p2'' = Some tom"
    and "select_pet (local_conn (fst (pull_from_remote pulling_device ''u1''))) ''p3'' = Some bella"
    by (simp_all add: pulling_device_facts sample_pets)
  moreover from pulled [THEN conjunct2, THEN conjunct2]
  have "snd (pull_from_remote pulling_device ''u1'') = [(''pets'', PyInt 2), (''status'', PyStr ''online'')]"
    by (simp add: pulling_device_facts sample_pets)
  ultimately show ?thesis
    using dist pulling_device_facts(1-3) by simp
qed

subsection \<open>Soft delete\<close>

text \<open>
  C8. Soft-deleting an existing pet keeps the row: the \<^verbatim>\<open>UPDATE\<close> sets \<open>is_deleted = 1\<close> and
  \<open>sync_status = 'pending'\<close> (and \<open>updated_at\<close>), and after \<^verbatim>\<open>delete_pet\<close> the table has the
  same ids, the row has \<open>is_deleted = 1\<close>, and its status is \<^verbatim>\<open>'pending'\<close> unless the
  immediate push succeeded, in which case it is \<^verbatim>\<open>'synced'\<close> and the remote copy has
  \<open>is_deleted = 1\<close>. The normal read path \<^verbatim>\<open>get_pet_by_id\<close> returns nothing for it.
  The deletion does reach the remote: when the manager is online, the journal id is unused
  and the remote write goes through, \<^verbatim>\<open>delete_pet\<close> leaves the deleted row, marked
  \<^verbatim>\<open>'synced'\<close>, on both sides; and from any later state of the manager with the same local
  database that is online and whose remote write goes through, the push succeeds, the remote
  copy has \<open>is_deleted = 1\<close> and the read path still returns nothing. Whenever a push
  after the deletion returns \<^verbatim>\<open>True\<close>, that is so.
\<close>

theorem soft_delete_propagates:
  assumes "select_pet (local_conn m) pet_id = Some pet"
  shows "select_pet (soft_delete_pet (local_conn m) ts pet_id) pet_id
           = Some (pet\<lparr>p_is_deleted := 1, p_updated_at := ts, p_sync_status := ''pending''\<rparr>)
    \<and> map p_id (pets (local_conn (fst (delete_pet m pet_id)))) = map p_id (pets (local_conn m))
    \<and> (\<exists>r. select_pet (local_conn (fst (delete_pet m pet_id))) pet_id = Some r \<and> p_is_deleted r = 1
           \<and> (p_sync_status r = ''pending''
              \<or> p_sync_status r = ''synced'' \<and> is_online m
                \<and> map_option p_is_deleted (select_pet (remote_db (fst (delete_pet m pet_id))) pet_id) = Some 1))
    \<and> get_pet_by_id (fst (delete_pet m pet_id)) pet_id = None
    \<and> (is_online m \<and> has_remote_conn m \<and> network m (requests m) \<and> pet_row_ok (remote_db m) pet
          \<and> uuid4 m (drawn m) \<notin> set (map l_id (sync_log (local_conn m))) \<longrightarrow>
          snd (delete_pet m pet_id)
          \<and> select_pet (remote_db (fst (delete_pet m pet_id))) pet_id
              = Some (pet\<lparr>p_is_deleted := 1, p_updated_at := clock m (ticks m), p_sync_status := ''synced''\<rparr>)
          \<and> select_pet (local_conn (fst (delete_pet m pet_id))) pet_id
              = Some (pet\<lparr>p_is_deleted := 1, p_updated_at := clock m (ticks m), p_sync_status := ''synced''\<rparr>))
    \<and> (\<forall>m2. local_conn m2 = local_conn (fst (delete_pet m pet_id))
          \<and> is_online m2 \<and> has_remote_conn m2 \<and> network m2 (requests m2)
          \<and> (\<exists>r. select_pet (local_conn m2) pet_id = Some r \<and> pet_row_ok (remote_db m2) r) \<longrightarrow>
          snd (sync_pet_to_remote m2 pet_id)
          \<and> map_option p_is_deleted (select_pet (remote_db (fst (sync_pet_to_remote m2 pet_id))) pet_id) = Some 1
          \<and> get_pet_by_id (fst (sync_pet_to_remote m2 pet_id)) pet_id = None)
    \<and> (snd (sync_pet_to_remote (fst (delete_pet m pet_id)) pet_id) \<longrightarrow>
          map_option p_is_deleted
            (select_pet (remote_db (fst (sync_pet_to_remote (fst (delete_pet m pet_id)) pet_id))) pet_id) = Some 1
          \<and> get_pet_by_id (fst (sync_pet_to_remote (fst (delete_pet m pet_id)) pet_id)) pet_id = None)"
proof -
  define m' where "m' = fst (delete_pet m pet_id)"
  note eff = delete_pet_effect [OF assms, folded m'_def]
  from eff(3) obtain r where r: "select_pet (local_conn m') pet_id = Some r" "p_is_deleted r = 1"
    by blast
  note gone = eff(5)
  have pushed_later: "map_option p_is_deleted (select_pet (remote_db (fst (sync_pet_to_remote m2 pet_id))) pet_id) = Some 1
          \<and> get_pet_by_id (fst (sync_pet_to_remote m2 pet_id)) pet_id = None"
    if loc: "local_conn m2 = local_conn m'" and pushed: "snd (sync_pet_to_remote m2 pet_id)" for m2
  proof
    from sync_pet_to_remote_pushed [OF pushed] r
    show "map_option p_is_deleted (select_pet (remote_db (fst (sync_pet_to_remote m2 pet_id))) pet_id) = Some 1"
      unfolding loc by auto
    have "local_conn (fst (sync_pet_to_remote m2 pet_id)) = mark_pet_synced (local_conn m') pet_id"
      using pushed by (simp add: sync_pet_to_remote_local loc)
    with mark_synced_deleted [OF gone, of pet_id]
    have "\<forall>x \<in> set (pets (local_conn (fst (sync_pet_to_remote m2 pet_id)))).
            p_id x = pet_id \<longrightarrow> p_is_deleted x = 1"
      by (simp only:)
    then show "get_pet_by_id (fst (sync_pet_to_remote m2 pet_id)) pet_id = None"
      by (rule get_pet_by_id_deleted)
  qed
  have online: "snd (delete_pet m pet_id)
          \<and> select_pet (remote_db m') pet_id
              = Some (pet\<lparr>p_is_deleted := 1, p_updated_at := clock m (ticks m), p_sync_status := ''synced''\<rparr>)
          \<and> select_pet (local_conn m') pet_id
              = Some (pet\<lparr>p_is_deleted := 1, p_updated_at := clock m (ticks m), p_sync_status := ''synced''\<rparr>)"
    if "is_online m \<and> has_remote_conn m \<and> network m (requests m) \<and> pet_row_ok (remote_db m) pet
          \<and> uuid4 m (drawn m) \<notin> set (map l_id (sync_log (local_conn m)))"
    using delete_pet_online [OF assms] that unfolding m'_def by blast
  have reconnect: "snd (sync_pet_to_remote m2 pet_id)
          \<and> map_option p_is_deleted (select_pet (remote_db (fst (sync_pet_to_remote m2 pet_id))) pet_id) = Some 1
          \<and> get_pet_by_id (fst (sync_pet_to_remote m2 pet_id)) pet_id = None"
    if h: "local_conn m2 = local_conn m'
          \<and> is_online m2 \<and> has_remote_conn m2 \<and> network m2 (requests m2)
          \<and> (\<exists>r. select_pet (local_conn m2) pet_id = Some r \<and> pet_row_ok (remote_db m2) r)" for m2
  proof -
    from h obtain r2 where "select_pet (local_conn m2) pet_id = Some r2" "pet_row_ok (remote_db m2) r2"
      by blast
    with h have "snd (sync_pet_to_remote m2 pet_id)"
      using push_reaches_remote(1) [of m2 pet_id r2] by blast
    with pushed_later [of m2] h show ?thesis by blast
  qed
  from eff(1) [of ts] eff(2) eff(3) eff(4) online reconnect pushed_later [of m'] show ?thesis
    unfolding m'_def by blast
qed

theorem soft_delete_propagates_witness:
  "select_pet (local_conn online_device) ''p1'' = Some rex
   \<and> is_online online_device \<and> has_remote_conn online_device
   \<and> network online_device (requests online_device)
   \<and> pet_row_ok (remote_db online_device) rex
   \<and> snd (delete_pet online_device ''p1'')
   \<and> select_pet (remote_db (fst (delete_pet online_device ''p1''))) ''p1''
       = Some (rex\<lparr>p_is_deleted := 1, p_updated_at := ''2024-01-01T00:00:00'', p_sync_status := ''synced''\<rparr>)
   \<and> get_pet_by_id (fst (delete_pet online_device ''p1'')) ''p1'' = None
   \<and> select_pet (local_conn offline_device) ''p1'' = Some rex
   \<and> get_pet_by_id (fst (delete_pet offline_device ''p1'')) ''p1'' = None
   \<and> snd (sync_pet_to_remote
          ((fst (delete_pet offline_device ''p1''))
             \<lparr>has_remote_conn := True, is_online := True, remote_db := remote_start\<rparr>) ''p1'')
   \<and> map_option p_is_deleted
        (select_pet (remote_db (fst (sync_pet_to_remote
          ((fst (delete_pet offline_device ''p1''))
             \<lparr>has_remote_conn := True, is_online := True, remote_db := remote_start\<rparr>) ''p1''))) ''p1'')
       = Some 1
   \<and> get_pet_by_id (fst (sync_pet_to_remote
          ((fst (delete_pet offline_device ''p1''))
             \<lparr>has_remote_conn := True, is_online := True, remote_db := remote_start\<rparr>) ''p1'')) ''p1''
       = None"
proof -
  define online_again where "online_again = (fst (delete_pet offline_device ''p1''))
             \<lparr>has_remote_conn := True, is_online := True, remote_db := remote_start\<rparr>"
  note on = soft_delete_propagates [OF sel_rex, of "''t''"]
  note off = soft_delete_propagates [OF rex_offline, of "''t''"]
  from on online_device_ready have 1: "snd (delete_pet online_device ''p1'')"
    "select_pet (remote_db (fst (delete_pet online_device ''p1''))) ''p1''
       = Some (rex\<lparr>p_is_deleted := 1, p_updated_at := ''2024-01-01T00:00:00'', p_sync_status := ''synced''\<rparr>)"
    "get_pet_by_id (fst (delete_pet online_device ''p1'')) ''p1'' = None"
    by simp_all
  from off have 2: "get_pet_by_id (fst (delete_pet offline_device ''p1'')) ''p1'' = None"
    by simp
  from delete_pet_row [OF rex_offline] obtain st where
    "select_pet (local_conn (fst (delete_pet offline_device ''p1''))) ''p1''
       = Some (rex\<lparr>p_is_deleted := 1, p_updated_at := clock offline_device (ticks offline_device),
                  p_sync_status := st\<rparr>)"
    by blast
  moreover have "pet_row_ok remote_start rex"
    by (simp add: pet_row_ok_def remote_start_def rex_def ann_def)
  moreover have "network (fst (delete_pet offline_device ''p1'')) k" for k
    by (simp add: delete_pet_fst Let_def offline_device_def)
  ultimately have ready: "local_conn online_again = local_conn (fst (delete_pet offline_device ''p1''))
          \<and> is_online online_again \<and> has_remote_conn online_again \<and> network online_again (requests online_again)
          \<and> (\<exists>r. select_pet (local_conn online_again) ''p1'' = Some r \<and> pet_row_ok (remote_db online_again) r)"
    by (simp add: online_again_def)
  from off ready have 3: "snd (sync_pet_to_remote online_again ''p1'')
          \<and> map_option p_is_deleted (select_pet (remote_db (fst (sync_pet_to_remote online_again ''p1''))) ''p1'') = Some 1
          \<and> get_pet_by_id (fst (sync_pet_to_remote online_again ''p1'')) ''p1'' = None"
    by blast
  from 1 2 3 sel_rex rex_offline online_device_ready(1-4) show ?thesis
    unfolding online_again_def by simp
qed

subsection \<open>The journal\<close>




subsection \<open>Timestamps of a record\<close>





subsection \<open>The owner of a new pet\<close>

lemma accounts_live_cong:
  "users db' = users db \<Longrightarrow> foreign_keys db' = foreign_keys db \<Longrightarrow> accounts_live db' = accounts_live db"
  by (simp add: accounts_live_def)

lemma accounts_live_mark_user [simp]:
  "accounts_live (mark_user_synced db i) = accounts_live db"
proof -
  have *: "list_all (\<lambda>u. u_is_deleted u = 0)
          (map (\<lambda>r. if u_id r = i then r\<lparr>u_sync_status := ''synced''\<rparr> else r) xs)
        = list_all (\<lambda>u. u_is_deleted u = 0) xs" for xs
    by (induction xs) simp_all
  show ?thesis
    unfolding accounts_live_def mark_user_synced_def by (simp add: *)
qed

lemma accounts_live_sync_user [simp]:
  "accounts_live (local_conn (fst (sync_user_to_remote m i))) = accounts_live (local_conn m)"
  by (auto simp: sync_user_to_remote_def remote_write_def Let_def split: option.splits sum.splits)

lemma accounts_live_sync_pet [simp]:
  "accounts_live (local_conn (fst (sync_pet_to_remote m i))) = accounts_live (local_conn m)"
  by (rule accounts_live_cong) simp_all

lemma accounts_live_log_change [simp]:
  "accounts_live (local_conn (fst (log_change m t r operation))) = accounts_live (local_conn m)"
  by (rule accounts_live_cong) simp_all

lemma accounts_live_sync_users_loop:
  "accounts_live (local_conn (fst (sync_users_loop m ids d))) = accounts_live (local_conn m)"
proof (induction ids arbitrary: m d)
  case Nil
  show ?case by simp
next
  case (Cons i ids)
  obtain m1 ok where step: "sync_user_to_remote m i = (m1, ok)"
    by (cases "sync_user_to_remote m i")
  then have "accounts_live (local_conn m1) = accounts_live (local_conn m)"
    using accounts_live_sync_user [of m i] by simp
  with step Cons.IH [of m1] show ?case
    by (cases ok) (simp_all del: dict_incr.simps)
qed

lemma accounts_live_sync_pets_loop:
  "accounts_live (local_conn (fst (sync_pets_loop m ids d))) = accounts_live (local_conn m)"
proof (induction ids arbitrary: m d)
  case Nil
  show ?case by simp
next
  case (Cons i ids)
  obtain m1 ok where step: "sync_pet_to_remote m i = (m1, ok)"
    by (cases "sync_pet_to_remote m i")
  then have "accounts_live (local_conn m1) = accounts_live (local_conn m)"
    using accounts_live_sync_pet [of m i] by simp
  with step Cons.IH [of m1] show ?case
    by (cases ok) (simp_all del: dict_incr.simps)
qed

lemma accounts_live_pull_loop:
  "accounts_live (fst (pull_loop db rs d)) = accounts_live db"
proof (induction rs arbitrary: db d)
  case Nil
  show ?case by simp
next
  case (Cons r rs)
  show ?case
  proof (cases "insert_or_replace_pet db (r\<lparr>p_sync_status := ''synced''\<rparr>)")
    case (Inl e)
    with Cons.IH [of db] show ?thesis
      unfolding pull_loop_step by simp
  next
    case (Inr db1)
    from insert_or_replace_pet_frame [OF Inr] have "accounts_live db1 = accounts_live db"
      by (intro accounts_live_cong) simp_all
    with Inr Cons.IH [of db1] Cons.IH [of db] show ?thesis
      unfolding pull_loop_step by simp
  qed
qed

lemma check_connection_local [simp]:
  "local_conn (fst (check_connection m)) = local_conn m"
  by (simp add: check_connection_def try_connect_remote_def Let_def)

lemma accounts_live_sync_all_pending:
  "accounts_live (local_conn (fst (sync_all_pending m))) = accounts_live (local_conn m)"
  unfolding sync_all_pending_unfold Let_def
  by (simp add: accounts_live_sync_pets_loop accounts_live_sync_users_loop del: dict_incr.simps)

lemma accounts_live_pull:
  "accounts_live (local_conn (fst (pull_from_remote m user_id))) = accounts_live (local_conn m)"
  unfolding pull_from_remote_unfold Let_def
  by (simp add: accounts_live_pull_loop del: dict_incr.simps pull_loop.simps)

lemma accounts_live_full_sync:
  "accounts_live (local_conn (fst (full_sync m user_id))) = accounts_live (local_conn m)"
  by (simp add: full_sync_def Let_def case_prod_beta accounts_live_pull accounts_live_sync_all_pending)

lemma accounts_live_update_pet:
  "accounts_live (local_conn (fst (update_pet m i kwargs))) = accounts_live (local_conn m)"
  by (simp add: update_pet_effect)

lemma accounts_live_delete_pet:
  "accounts_live (local_conn (fst (delete_pet m i))) = accounts_live (local_conn m)"
  unfolding delete_pet_fst Let_def
  by (simp add: accounts_live_def soft_delete_pet_def)

lemma accounts_live_create_pet:
  "accounts_live (local_conn (fst (create_pet m user_id name species breed age weight notes)))
     = accounts_live (local_conn m)"
proof (cases "insert_pet (local_conn m)
                \<lparr>p_id = uuid4 m (drawn m), p_user_id = user_id, p_name = name, p_species = species,
                 p_breed = breed, p_age = age, p_weight = weight, p_notes = notes,
                 p_created_at = clock m (ticks m), p_updated_at = clock m (ticks m),
                 p_is_deleted = 0, p_sync_status = ''pending''\<rparr>")
  case (Inl e)
  then show ?thesis
    unfolding create_pet_fst Let_def by simp
next
  case (Inr db)
  from insert_pet_frame [OF Inr] have "accounts_live db = accounts_live (local_conn m)"
    by (intro accounts_live_cong) simp_all
  with Inr show ?thesis
    unfolding create_pet_fst Let_def by simp
qed

lemma accounts_live_create_user:
  assumes "accounts_live (local_conn m)"
  shows "accounts_live (local_conn (fst (create_user m username password_hash)))"
proof (cases "insert_user (local_conn m)
                \<lparr>u_id = uuid4 m (drawn m), u_username = username, u_password_hash = password_hash,
                 u_created_at = clock m (ticks m), u_updated_at = clock m (ticks m),
                 u_is_deleted = 0, u_sync_status = ''pending''\<rparr>")
  case (Inl e)
  with assms show ?thesis
    by (simp add: create_user_def generate_id_def get_timestamp_def Let_def)
next
  case (Inr db)
  then have "accounts_live db"
    using assms by (auto simp: insert_user_def accounts_live_def split: if_splits)
  with Inr show ?thesis
    by (simp add: create_user_def generate_id_def get_timestamp_def Let_def case_prod_beta
          split: sum.splits)
qed

lemma get_user_by_id_live:
  assumes "accounts_live (local_conn m)"
  shows "get_user_by_id m user_id = select_user (local_conn m) user_id"
proof -
  have *: "list_all (\<lambda>u. u_is_deleted u = 0) xs \<Longrightarrow>
        find (\<lambda>r. u_id r = user_id \<and> u_is_deleted r = 0) xs = find (\<lambda>r. u_id r = user_id) xs" for xs
    by (induction xs) simp_all
  from assms have "list_all (\<lambda>u. u_is_deleted u = 0) (users (local_conn m))"
    by (simp add: accounts_live_def)
  from * [OF this] show ?thesis
    unfolding get_user_by_id_def select_user_def .
qed

lemma select_user_None:
  "select_user db user_id = None \<longleftrightarrow> user_id \<notin> set (map u_id (users db))"
  unfolding select_user_def find_None_iff by auto

lemma get_user_by_id_Some:
  assumes "get_user_by_id m user_id = Some u"
  shows "u \<in> set (users (local_conn m)) \<and> u_id u = user_id \<and> u_is_deleted u = 0"
proof -
  from assms have "find (\<lambda>r. u_id r = user_id \<and> u_is_deleted r = 0) (users (local_conn m)) = Some u"
    by (simp add: get_user_by_id_def)
  then obtain k where "k < length (users (local_conn m))" "users (local_conn m) ! k = u"
      "u_id u = user_id \<and> u_is_deleted u = 0"
    unfolding find_Some_iff by blast
  then show ?thesis
    using nth_mem by blast
qed

text \<open>
  C9. A pet is created only for an existing, non-deleted account: on the local database as the
  program keeps it (foreign keys enforced, no account soft-deleted), \<^verbatim>\<open>create_pet\<close> for a
  \<open>user_id\<close> that \<^verbatim>\<open>get_user_by_id\<close> does not find returns \<open>None\<close> and writes nothing, and a
  \<^verbatim>\<open>create_pet\<close> that succeeds has an owner that is a stored account with that id and
  \<open>is_deleted = 0\<close>, which the new row references. Every method of the manager keeps the
  local database in that condition, and the freshly created tables are in it.
\<close>

theorem create_pet_needs_owner:
  assumes "accounts_live (local_conn m)"
  shows "(get_user_by_id m user_id = None \<longrightarrow>
            snd (create_pet m user_id name species breed age weight notes) = None
            \<and> local_conn (fst (create_pet m user_id name species breed age weight notes)) = local_conn m
            \<and> remote_db (fst (create_pet m user_id name species breed age weight notes)) = remote_db m)
       \<and> (\<forall>pet_id. snd (create_pet m user_id name species breed age weight notes) = Some pet_id \<longrightarrow>
            (\<exists>u. get_user_by_id m user_id = Some u \<and> u \<in> set (users (local_conn m))
                 \<and> u_id u = user_id \<and> u_is_deleted u = 0)
            \<and> map_option p_user_id
                 (select_pet (local_conn (fst (create_pet m user_id name species breed age weight notes))) pet_id)
                = Some user_id)
       \<and> accounts_live empty_db
       \<and> accounts_live (local_conn (fst (create_user m username password_hash)))
       \<and> accounts_live (local_conn (fst (create_pet m user_id name species breed age weight notes)))
       \<and> accounts_live (local_conn (fst (update_pet m other_id kwargs)))
       \<and> accounts_live (local_conn (fst (delete_pet m other_id)))
       \<and> accounts_live (local_conn (fst (sync_all_pending m)))
       \<and> accounts_live (local_conn (fst (pull_from_remote m user_id)))
       \<and> accounts_live (local_conn (fst (full_sync m user_id)))"
proof -
  let ?c = "create_pet m user_id name species breed age weight notes"
  from assms have fk: "foreign_keys (local_conn m)"
    by (simp add: accounts_live_def)
  have none: "snd ?c = None \<and> local_conn (fst ?c) = local_conn m \<and> remote_db (fst ?c) = remote_db m"
    if "get_user_by_id m user_id = None"
  proof -
    from that have absent: "user_id \<notin> set (map u_id (users (local_conn m)))"
      using get_user_by_id_live [OF assms] select_user_None by metis
    with fk have "snd ?c = None"
      unfolding create_pet_result by simp
    moreover from absent fk have "insert_pet (local_conn m)
                \<lparr>p_id = uuid4 m (drawn m), p_user_id = user_id, p_name = name, p_species = species,
                 p_breed = breed, p_age = age, p_weight = weight, p_notes = notes,
                 p_created_at = clock m (ticks m), p_updated_at = clock m (ticks m),
                 p_is_deleted = 0, p_sync_status = ''pending''\<rparr> = Inl IntegrityError"
      by (simp add: insert_pet_def pet_row_ok_def)
    then have "fst ?c = m\<lparr>drawn := drawn m + 1, ticks := ticks m + 1\<rparr>"
      unfolding create_pet_fst Let_def by simp
    ultimately show ?thesis
      by simp
  qed
  have some: "(\<exists>u. get_user_by_id m user_id = Some u \<and> u \<in> set (users (local_conn m))
                 \<and> u_id u = user_id \<and> u_is_deleted u = 0)
            \<and> map_option p_user_id (select_pet (local_conn (fst ?c)) pet_id) = Some user_id"
    if ok: "snd ?c = Some pet_id" for pet_id
  proof -
    from ok none have "get_user_by_id m user_id \<noteq> None"
      by force
    then obtain u where u: "get_user_by_id m user_id = Some u"
      by blast
    from create_pet_row_after [OF ok] obtain r where
      "select_pet (local_conn (fst ?c)) pet_id = Some r" "p_user_id r = user_id"
      by force
    with u get_user_by_id_Some [OF u] show ?thesis
      by simp
  qed
  have "accounts_live empty_db"
    by (simp add: accounts_live_def empty_db_def)
  with none some assms show ?thesis
    by (simp add: accounts_live_create_user accounts_live_create_pet accounts_live_update_pet
        accounts_live_delete_pet accounts_live_sync_all_pending accounts_live_pull
        accounts_live_full_sync)
qed

theorem create_pet_needs_owner_witness:
  "accounts_live (local_conn offline_device)
   \<and> get_user_by_id offline_device ''nobody'' = None
   \<and> snd (create_pet offline_device ''nobody'' (SqlText ''Tom'') (SqlText ''cat'') (SqlText [])
            (SqlInteger 1) (SqlReal 4) (SqlText [])) = None
   \<and> local_conn (fst (create_pet offline_device ''nobody'' (SqlText ''Tom'') (SqlText ''cat'')
            (SqlText []) (SqlInteger 1) (SqlReal 4) (SqlText []))) = local_conn offline_device
   \<and> snd (create_pet offline_device ''u1'' (SqlText ''Tom'') (SqlText ''cat'') (SqlText [])
            (SqlInteger 1) (SqlReal 4) (SqlText [])) = Some ''a''
   \<and> get_user_by_id offline_device ''u1'' = Some ann
   \<and> map_option p_user_id
        (select_pet (local_conn (fst (create_pet offline_device ''u1'' (SqlText ''Tom'') (SqlText ''cat'')
            (SqlText []) (SqlInteger 1) (SqlReal 4) (SqlText [])))) ''a'') = Some ''u1''"
proof -
  have live: "accounts_live (local_conn offline_device)"
    by (simp add: accounts_live_def offline_device_def home_db_def ann_def)
  have nobody: "get_user_by_id offline_device ''nobody'' = None"
    by (simp add: get_user_by_id_def offline_device_def home_db_def ann_def)
  have u1: "get_user_by_id offline_device ''u1'' = Some ann"
    by (simp add: get_user_by_id_def offline_device_def home_db_def ann_def)
  have made: "snd (create_pet offline_device ''u1'' (SqlText ''Tom'') (SqlText ''cat'') (SqlText [])
            (SqlInteger 1) (SqlReal 4) (SqlText [])) = Some ''a''"
    unfolding create_pet_result
    by (simp add: offline_device_def home_db_def ann_def rex_def)
  note thm1 = create_pet_needs_owner [OF live, of "''nobody''" "SqlText ''Tom''" "SqlText ''cat''"
      "SqlText []" "SqlInteger 1" "SqlReal 4" "SqlText []"]
  note thm2 = create_pet_needs_owner [OF live, of "''u1''" "SqlText ''Tom''" "SqlText ''cat''"
      "SqlText []" "SqlInteger 1" "SqlReal 4" "SqlText []"]
  from thm1 nobody have a: "snd (create_pet offline_device ''nobody'' (SqlText ''Tom'') (SqlText ''cat'') (SqlText [])
            (SqlInteger 1) (SqlReal 4) (SqlText [])) = None
   \<and> local_conn (fst (create_pet offline_device ''nobody'' (SqlText ''Tom'') (SqlText ''cat'')
            (SqlText []) (SqlInteger 1) (SqlReal 4) (SqlText []))) = local_conn offline_device"
    by blast
  from thm2 made have b: "map_option p_user_id
        (select_pet (local_conn (fst (create_pet offline_device ''u1'' (SqlText ''Tom'') (SqlText ''cat'')
            (SqlText []) (SqlInteger 1) (SqlReal 4) (SqlText [])))) ''a'') = Some ''u1''"
    by blast
  from live nobody u1 made a b show ?thesis
    by blast
qed


subsection \<open>The push of everything pending\<close>

lemma sync_pet_to_remote_env [simp]:
  "network (fst (sync_pet_to_remote m i)) = network m"
  "is_online (fst (sync_pet_to_remote m i)) = is_online m"
  "has_remote_conn (fst (sync_pet_to_remote m i)) = has_remote_conn m"
  "users (remote_db (fst (sync_pet_to_remote m i))) = users (remote_db m)"
  "foreign_keys (remote_db (fst (sync_pet_to_remote m i))) = foreign_keys (remote_db m)"
  by (auto simp: sync_pet_to_remote_def remote_write_def insert_or_replace_pet_def Let_def
      split: option.splits sum.splits if_splits)

lemma sync_user_to_remote_env [simp]:
  "network (fst (sync_user_to_remote m i)) = network m"
  "is_online (fst (sync_user_to_remote m i)) = is_online m"
  "has_remote_conn (fst (sync_user_to_remote m i)) = has_remote_conn m"
  by (auto simp: sync_user_to_remote_def remote_write_def Let_def
      split: option.splits sum.splits if_splits)

lemma sync_pets_loop_Cons:
  "sync_pets_loop m (i # ids) d =
     sync_pets_loop (fst (sync_pet_to_remote m i)) ids
       (if snd (sync_pet_to_remote m i) then dict_incr ''pets'' d else d)"
proof (cases "sync_pet_to_remote m i")
  case (Pair m1 ok)
  then show ?thesis
    by (cases ok) (simp_all del: dict_incr.simps)
qed

lemma sync_users_loop_Cons:
  "sync_users_loop m (i # ids) d =
     sync_users_loop (fst (sync_user_to_remote m i)) ids
       (if snd (sync_user_to_remote m i) then dict_incr ''users'' d else d)"
proof (cases "sync_user_to_remote m i")
  case (Pair m1 ok)
  then show ?thesis
    by (cases ok) (simp_all del: dict_incr.simps)
qed

lemma sync_pets_loop_frame:
  assumes "\<And>m i. f (fst (sync_pet_to_remote m i)) = f m"
  shows "f (fst (sync_pets_loop m ids d)) = f m"
proof (induction ids arbitrary: m d)
  case Nil
  show ?case by simp
next
  case (Cons i ids)
  show ?case
    unfolding sync_pets_loop_Cons Cons.IH assms ..
qed

lemma sync_users_loop_frame:
  assumes "\<And>m i. f (fst (sync_user_to_remote m i)) = f m"
  shows "f (fst (sync_users_loop m ids d)) = f m"
proof (induction ids arbitrary: m d)
  case Nil
  show ?case by simp
next
  case (Cons i ids)
  show ?case
    unfolding sync_users_loop_Cons Cons.IH assms ..
qed

lemma sync_pet_to_remote_step:
  assumes "is_online m" "has_remote_conn m" "select_pet (local_conn m) i = Some r"
  shows "requests (fst (sync_pet_to_remote m i)) = requests m + 1"
    and "snd (sync_pet_to_remote m i) \<longleftrightarrow> network m (requests m) \<and> pet_row_ok (remote_db m) r"
    and "select_pet (local_conn (fst (sync_pet_to_remote m i))) j
           = (if j = i \<and> snd (sync_pet_to_remote m i)
              then Some (r\<lparr>p_sync_status := ''synced''\<rparr>) else select_pet (local_conn m) j)"
    and "select_pet (remote_db (fst (sync_pet_to_remote m i))) j
           = (if j = i \<and> snd (sync_pet_to_remote m i)
              then Some (r\<lparr>p_sync_status := ''synced''\<rparr>) else select_pet (remote_db m) j)"
proof -
  note eff = sync_pet_to_remote_effect [OF assms]
  from assms(3) have id: "p_id r = i"
    by (rule select_pet_id)
  show "requests (fst (sync_pet_to_remote m i)) = requests m + 1"
    unfolding eff by simp
  show "snd (sync_pet_to_remote m i) \<longleftrightarrow> network m (requests m) \<and> pet_row_ok (remote_db m) r"
    unfolding eff by simp
  show "select_pet (local_conn (fst (sync_pet_to_remote m i))) j
           = (if j = i \<and> snd (sync_pet_to_remote m i)
              then Some (r\<lparr>p_sync_status := ''synced''\<rparr>) else select_pet (local_conn m) j)"
    unfolding eff using assms(3) by (auto simp: select_pet_mark_synced)
  have *: "find (\<lambda>x. p_id x = j') (filter (\<lambda>x. p_id x \<noteq> i) xs @ [r\<lparr>p_sync_status := ''synced''\<rparr>])
          = (if j' = i then Some (r\<lparr>p_sync_status := ''synced''\<rparr>) else find (\<lambda>x. p_id x = j') xs)" for xs j'
    using id by (induction xs) auto
  show "select_pet (remote_db (fst (sync_pet_to_remote m i))) j
           = (if j = i \<and> snd (sync_pet_to_remote m i)
              then Some (r\<lparr>p_sync_status := ''synced''\<rparr>) else select_pet (remote_db m) j)"
    unfolding eff by (simp add: select_pet_def *)
qed

lemma sync_user_to_remote_step:
  assumes "is_online m" "has_remote_conn m" "select_user (local_conn m) i = Some r"
  shows "requests (fst (sync_user_to_remote m i)) = requests m + 1"
    and "snd (sync_user_to_remote m i) \<longrightarrow> network m (requests m)"
    and "select_user (local_conn (fst (sync_user_to_remote m i))) j
           = (if j = i \<and> snd (sync_user_to_remote m i)
              then Some (r\<lparr>u_sync_status := ''synced''\<rparr>) else select_user (local_conn m) j)"
proof -
  note eff = sync_user_to_remote_effect [OF assms]
  show "requests (fst (sync_user_to_remote m i)) = requests m + 1"
    unfolding eff by (simp split: sum.splits)
  show "snd (sync_user_to_remote m i) \<longrightarrow> network m (requests m)"
    unfolding eff by (simp split: sum.splits)
  show "select_user (local_conn (fst (sync_user_to_remote m i))) j
           = (if j = i \<and> snd (sync_user_to_remote m i)
              then Some (r\<lparr>u_sync_status := ''synced''\<rparr>) else select_user (local_conn m) j)"
    unfolding eff using assms(3) by (auto simp: select_user_mark_synced split: sum.splits)
qed

text \<open>The pets loop, row by row.\<close>

lemma sync_pets_loop_rows:
  assumes "is_online m" "has_remote_conn m" "distinct ids"
    and "\<forall>i\<in>set ids. select_pet (local_conn m) i \<noteq> None"
  shows "requests (fst (sync_pets_loop m ids d)) = requests m + length ids
       \<and> (\<forall>j. j \<notin> set ids \<longrightarrow>
              select_pet (local_conn (fst (sync_pets_loop m ids d))) j = select_pet (local_conn m) j
            \<and> select_pet (remote_db (fst (sync_pets_loop m ids d))) j = select_pet (remote_db m) j)
       \<and> (\<forall>k<length ids.
            if network m (requests m + k)
               \<and> (\<exists>r. select_pet (local_conn m) (ids ! k) = Some r \<and> pet_row_ok (remote_db m) r)
            then select_pet (local_conn (fst (sync_pets_loop m ids d))) (ids ! k)
                   = map_option (\<lambda>r. r\<lparr>p_sync_status := ''synced''\<rparr>) (select_pet (local_conn m) (ids ! k))
               \<and> select_pet (remote_db (fst (sync_pets_loop m ids d))) (ids ! k)
                   = map_option (\<lambda>r. r\<lparr>p_sync_status := ''synced''\<rparr>) (select_pet (local_conn m) (ids ! k))
            else select_pet (local_conn (fst (sync_pets_loop m ids d))) (ids ! k)
                   = select_pet (local_conn m) (ids ! k)
               \<and> select_pet (remote_db (fst (sync_pets_loop m ids d))) (ids ! k)
                   = select_pet (remote_db m) (ids ! k))"
  using assms
proof (induction ids arbitrary: m d)
  case Nil
  show ?case by simp
next
  case (Cons i ids)
  let ?m1 = "fst (sync_pet_to_remote m i)"
  define d1 where "d1 = (if snd (sync_pet_to_remote m i) then dict_incr ''pets'' d else d)"
  define L where "L = fst (sync_pets_loop ?m1 ids d1)"
  have eq: "fst (sync_pets_loop m (i # ids) d) = L"
    unfolding sync_pets_loop_Cons L_def d1_def ..
  from Cons.prems obtain r where r: "select_pet (local_conn m) i = Some r"
    by auto
  note step = sync_pet_to_remote_step [OF Cons.prems(1,2) r]
  from Cons.prems have fresh: "i \<notin> set ids" and dist: "distinct ids"
    by simp_all
  have on: "is_online ?m1" "has_remote_conn ?m1"
    using Cons.prems by simp_all
  have other: "select_pet (local_conn ?m1) j = select_pet (local_conn m) j"
              "select_pet (remote_db ?m1) j = select_pet (remote_db m) j" if "j \<noteq> i" for j
    using that step(3,4) [of j] by simp_all
  have rows: "\<forall>j\<in>set ids. select_pet (local_conn ?m1) j \<noteq> None"
  proof
    fix j assume j: "j \<in> set ids"
    with fresh have "j \<noteq> i" by blast
    with other [of j] Cons.prems(4) j show "select_pet (local_conn ?m1) j \<noteq> None"
      by simp
  qed
  note IH = Cons.IH [OF on dist rows, of d1, folded L_def]
  have ok1: "pet_row_ok (remote_db ?m1) x = pet_row_ok (remote_db m) x" for x
    by (rule pet_row_ok_cong) simp_all
  have req: "requests L = requests m + length (i # ids)"
    using IH step(1) by simp
  have out: "select_pet (local_conn L) j = select_pet (local_conn m) j
           \<and> select_pet (remote_db L) j = select_pet (remote_db m) j" if "j \<notin> set (i # ids)" for j
  proof -
    from that have "j \<notin> set ids" "j \<noteq> i" by simp_all
    with IH other [of j] show ?thesis
      by simp
  qed
  have head: "select_pet (local_conn L) i = select_pet (local_conn ?m1) i"
             "select_pet (remote_db L) i = select_pet (remote_db ?m1) i"
    using IH fresh by simp_all
  have at: "if network m (requests m + k)
               \<and> (\<exists>r. select_pet (local_conn m) ((i # ids) ! k) = Some r \<and> pet_row_ok (remote_db m) r)
            then select_pet (local_conn L) ((i # ids) ! k)
                   = map_option (\<lambda>r. r\<lparr>p_sync_status := ''synced''\<rparr>) (select_pet (local_conn m) ((i # ids) ! k))
               \<and> select_pet (remote_db L) ((i # ids) ! k)
                   = map_option (\<lambda>r. r\<lparr>p_sync_status := ''synced''\<rparr>) (select_pet (local_conn m) ((i # ids) ! k))
            else select_pet (local_conn L) ((i # ids) ! k)
                   = select_pet (local_conn m) ((i # ids) ! k)
               \<and> select_pet (remote_db L) ((i # ids) ! k)
                   = select_pet (remote_db m) ((i # ids) ! k)" if k: "k < length (i # ids)" for k
  proof (cases k)
    case 0
    with head step(2) step(3) [of i] step(4) [of i] r show ?thesis
      by simp
  next
    case (Suc k')
    with k have k': "k' < length ids" by simp
    then have mem: "ids ! k' \<in> set ids" by simp
    with fresh have ne: "ids ! k' \<noteq> i" by metis
    from IH k' have "if network ?m1 (requests ?m1 + k')
               \<and> (\<exists>r. select_pet (local_conn ?m1) (ids ! k') = Some r \<and> pet_row_ok (remote_db ?m1) r)
            then select_pet (local_conn L) (ids ! k')
                   = map_option (\<lambda>r. r\<lparr>p_sync_status := ''synced''\<rparr>) (select_pet (local_conn ?m1) (ids ! k'))
               \<and> select_pet (remote_db L) (ids ! k')
                   = map_option (\<lambda>r. r\<lparr>p_sync_status := ''synced''\<rparr>) (select_pet (local_conn ?m1) (ids ! k'))
            else select_pet (local_conn L) (ids ! k') = select_pet (local_conn ?m1) (ids ! k')
               \<and> select_pet (remote_db L) (ids ! k') = select_pet (remote_db ?m1) (ids ! k')"
      by blast
    then show ?thesis
      unfolding Suc nth_Cons_Suc other [OF ne] ok1 step(1) by simp
  qed
  from req out at show ?case
    unfolding eq by blast
qed

text \<open>The pets loop counts the rows it has marked.\<close>

lemma sync_pets_loop_count:
  assumes "is_online m" "has_remote_conn m" "distinct ids"
    and "\<forall>i\<in>set ids. map_option p_sync_status (select_pet (local_conn m) i) = Some ''pending''"
  shows "snd (sync_pets_loop m ids [(''users'', PyInt a), (''pets'', PyInt b), (''status'', PyStr s)])
         = [(''users'', PyInt a),
            (''pets'', PyInt (b + int (length (filter
               (\<lambda>i. map_option p_sync_status
                      (select_pet (local_conn (fst (sync_pets_loop m ids
                          [(''users'', PyInt a), (''pets'', PyInt b), (''status'', PyStr s)]))) i)
                    = Some ''synced'') ids)))),
            (''status'', PyStr s)]"
  using assms
proof (induction ids arbitrary: m b)
  case Nil
  show ?case by simp
next
  case (Cons i ids)
  let ?d = "[(''users'', PyInt a), (''pets'', PyInt b), (''status'', PyStr s)]"
  let ?m1 = "fst (sync_pet_to_remote m i)"
  let ?ok = "snd (sync_pet_to_remote m i)"
  let ?b1 = "if ?ok then b + 1 else b"
  let ?d1 = "[(''users'', PyInt a), (''pets'', PyInt ?b1), (''status'', PyStr s)]"
  let ?L = "fst (sync_pets_loop ?m1 ids ?d1)"
  have d1: "(if ?ok then dict_incr ''pets'' ?d else ?d) = ?d1"
    by simp
  from Cons.prems obtain r where r: "select_pet (local_conn m) i = Some r"
    and pend: "p_sync_status r = ''pending''"
    by auto
  note step = sync_pet_to_remote_step [OF Cons.prems(1,2) r]
  from Cons.prems have fresh: "i \<notin> set ids" and dist: "distinct ids"
    by simp_all
  have on: "is_online ?m1" "has_remote_conn ?m1"
    using Cons.prems by simp_all
  have rows: "\<forall>j\<in>set ids. map_option p_sync_status (select_pet (local_conn ?m1) j) = Some ''pending''"
  proof
    fix j assume j: "j \<in> set ids"
    with fresh have "j \<noteq> i" by blast
    with step(3) [of j] Cons.prems(4) j
    show "map_option p_sync_status (select_pet (local_conn ?m1) j) = Some ''pending''"
      by simp
  qed
  then have rows': "\<forall>j\<in>set ids. select_pet (local_conn ?m1) j \<noteq> None"
    by fastforce
  from sync_pets_loop_rows [OF on dist rows', of ?d1] fresh
  have "select_pet (local_conn ?L) i = select_pet (local_conn ?m1) i"
    by blast
  with step(3) [of i] r pend
  have head: "map_option p_sync_status (select_pet (local_conn ?L) i) = Some ''synced'' \<longleftrightarrow> ?ok"
    by simp
  note IH = Cons.IH [OF on dist rows, of ?b1]
  show ?case
    unfolding sync_pets_loop_Cons d1 IH filter.simps head by simp
qed

text \<open>The users loop, row by row.\<close>

lemma sync_users_loop_rows:
  assumes "is_online m" "has_remote_conn m" "distinct ids"
    and "\<forall>i\<in>set ids. select_user (local_conn m) i \<noteq> None"
  shows "requests (fst (sync_users_loop m ids d)) = requests m + length ids
       \<and> (\<forall>j. j \<notin> set ids \<longrightarrow>
              select_user (local_conn (fst (sync_users_loop m ids d))) j = select_user (local_conn m) j)
       \<and> (\<forall>k<length ids.
              select_user (local_conn (fst (sync_users_loop m ids d))) (ids ! k)
                = select_user (local_conn m) (ids ! k)
            \<or> network m (requests m + k)
              \<and> select_user (local_conn (fst (sync_users_loop m ids d))) (ids ! k)
                  = map_option (\<lambda>r. r\<lparr>u_sync_status := ''synced''\<rparr>) (select_user (local_conn m) (ids ! k)))"
  using assms
proof (induction ids arbitrary: m d)
  case Nil
  show ?case by simp
next
  case (Cons i ids)
  let ?m1 = "fst (sync_user_to_remote m i)"
  define d1 where "d1 = (if snd (sync_user_to_remote m i) then dict_incr ''users'' d else d)"
  define L where "L = fst (sync_users_loop ?m1 ids d1)"
  have eq: "fst (sync_users_loop m (i # ids) d) = L"
    unfolding sync_users_loop_Cons L_def d1_def ..
  from Cons.prems obtain r where r: "select_user (local_conn m) i = Some r"
    by auto
  note step = sync_user_to_remote_step [OF Cons.prems(1,2) r]
  from Cons.prems have fresh: "i \<notin> set ids" and dist: "distinct ids"
    by simp_all
  have on: "is_online ?m1" "has_remote_conn ?m1"
    using Cons.prems by simp_all
  have other: "select_user (local_conn ?m1) j = select_user (local_conn m) j" if "j \<noteq> i" for j
    using that step(3) [of j] by simp
  have rows: "\<forall>j\<in>set ids. select_user (local_conn ?m1) j \<noteq> None"
  proof
    fix j assume j: "j \<in> set ids"
    with fresh have "j \<noteq> i" by blast
    with other [of j] Cons.prems(4) j show "select_user (local_conn ?m1) j \<noteq> None"
      by simp
  qed
  note IH = Cons.IH [OF on dist rows, of d1, folded L_def]
  have req: "requests L = requests m + length (i # ids)"
    using IH step(1) by simp
  have out: "select_user (local_conn L) j = select_user (local_conn m) j" if "j \<notin> set (i # ids)" for j
  proof -
    from that have "j \<notin> set ids" "j \<noteq> i" by simp_all
    with IH other [of j] show ?thesis
      by simp
  qed
  have head: "select_user (local_conn L) i = select_user (local_conn ?m1) i"
    using IH fresh by simp
  have at: "select_user (local_conn L) ((i # ids) ! k) = select_user (local_conn m) ((i # ids) ! k)
            \<or> network m (requests m + k)
              \<and> select_user (local_conn L) ((i # ids) ! k)
                  = map_option (\<lambda>r. r\<lparr>u_sync_status := ''synced''\<rparr>) (select_user (local_conn m) ((i # ids) ! k))"
    if k: "k < length (i # ids)" for k
  proof (cases k)
    case 0
    with head step(2) step(3) [of i] r show ?thesis
      by auto
  next
    case (Suc k')
    with k have k': "k' < length ids" by simp
    then have mem: "ids ! k' \<in> set ids" by simp
    with fresh have ne: "ids ! k' \<noteq> i" by metis
    from IH k' have "select_user (local_conn L) (ids ! k') = select_user (local_conn ?m1) (ids ! k')
            \<or> network ?m1 (requests ?m1 + k')
              \<and> select_user (local_conn L) (ids ! k')
                  = map_option (\<lambda>r. r\<lparr>u_sync_status := ''synced''\<rparr>) (select_user (local_conn ?m1) (ids ! k'))"
      by blast
    then show ?thesis
      unfolding Suc nth_Cons_Suc other [OF ne] step(1) by simp
  qed
  from req out at show ?case
    unfolding eq by blast
qed

lemma sync_users_loop_count:
  assumes "is_online m" "has_remote_conn m" "distinct ids"
    and "\<forall>i\<in>set ids. map_option u_sync_status (select_user (local_conn m) i) = Some ''pending''"
  shows "snd (sync_users_loop m ids [(''users'', PyInt a), (''pets'', PyInt b), (''status'', PyStr s)])
         = [(''users'', PyInt (a + int (length (filter
               (\<lambda>i. map_option u_sync_status
                      (select_user (local_conn (fst (sync_users_loop m ids
                          [(''users'', PyInt a), (''pets'', PyInt b), (''status'', PyStr s)]))) i)
                    = Some ''synced'') ids)))),
            (''pets'', PyInt b),
            (''status'', PyStr s)]"
  using assms
proof (induction ids arbitrary: m a)
  case Nil
  show ?case by simp
next
  case (Cons i ids)
  let ?d = "[(''users'', PyInt a), (''pets'', PyInt b), (''status'', PyStr s)]"
  let ?m1 = "fst (sync_user_to_remote m i)"
  let ?ok = "snd (sync_user_to_remote m i)"
  let ?a1 = "if ?ok then a + 1 else a"
  let ?d1 = "[(''users'', PyInt ?a1), (''pets'', PyInt b), (''status'', PyStr s)]"
  let ?L = "fst (sync_users_loop ?m1 ids ?d1)"
  have d1: "(if ?ok then dict_incr ''users'' ?d else ?d) = ?d1"
    by simp
  from Cons.prems obtain r where r: "select_user (local_conn m) i = Some r"
    and pend: "u_sync_status r = ''pending''"
    by auto
  note step = sync_user_to_remote_step [OF Cons.prems(1,2) r]
  from Cons.prems have fresh: "i \<notin> set ids" and dist: "distinct ids"
    by simp_all
  have on: "is_online ?m1" "has_remote_conn ?m1"
    using Cons.prems by simp_all
  have rows: "\<forall>j\<in>set ids. map_option u_sync_status (select_user (local_conn ?m1) j) = Some ''pending''"
  proof
    fix j assume j: "j \<in> set ids"
    with fresh have "j \<noteq> i" by blast
    with step(3) [of j] Cons.prems(4) j
    show "map_option u_sync_status (select_user (local_conn ?m1) j) = Some ''pending''"
      by simp
  qed
  then have rows': "\<forall>j\<in>set ids. select_user (local_conn ?m1) j \<noteq> None"
    by fastforce
  from sync_users_loop_rows [OF on dist rows', of ?d1] fresh
  have "select_user (local_conn ?L) i = select_user (local_conn ?m1) i"
    by blast
  with step(3) [of i] r pend
  have head: "map_option u_sync_status (select_user (local_conn ?L) i) = Some ''synced'' \<longleftrightarrow> ?ok"
    by simp
  note IH = Cons.IH [OF on dist rows, of ?a1]
  show ?case
    unfolding sync_users_loop_Cons d1 IH filter.simps head by simp
qed

lemma check_connection_ok:
  assumes "snd (check_connection m)"
  shows "is_online (fst (check_connection m))" "has_remote_conn (fst (check_connection m))"
    "requests (fst (check_connection m)) = requests m + 2"
    "network (fst (check_connection m)) = network m"
    "remote_db (fst (check_connection m)) = remote_db m"
  using assms
  by (auto simp: check_connection_def try_connect_remote_def Let_def split: if_splits)

lemma find_distinct:
  "distinct (map f xs) \<Longrightarrow> r \<in> set xs \<Longrightarrow> find (\<lambda>x. f x = f r) xs = Some r"
  by (induction xs) (auto simp: image_iff)

lemma pending_pets_rows:
  assumes "distinct (map p_id (pets db))"
  shows "distinct (map p_id (filter (\<lambda>r. p_sync_status r = ''pending'') (pets db)))"
    and "\<forall>i\<in>set (map p_id (filter (\<lambda>r. p_sync_status r = ''pending'') (pets db))).
           map_option p_sync_status (select_pet db i) = Some ''pending''"
proof -
  show "distinct (map p_id (filter (\<lambda>r. p_sync_status r = ''pending'') (pets db)))"
    using assms by (rule distinct_map_filter)
  show "\<forall>i\<in>set (map p_id (filter (\<lambda>r. p_sync_status r = ''pending'') (pets db))).
           map_option p_sync_status (select_pet db i) = Some ''pending''"
  proof
    fix i assume "i \<in> set (map p_id (filter (\<lambda>r. p_sync_status r = ''pending'') (pets db)))"
    then obtain r where r: "r \<in> set (pets db)" "p_sync_status r = ''pending''" "i = p_id r"
      by auto
    from find_distinct [OF assms r(1)] r(2,3)
    show "map_option p_sync_status (select_pet db i) = Some ''pending''"
      by (simp add: select_pet_def)
  qed
qed

lemma pending_users_rows:
  assumes "distinct (map u_id (users db))"
  shows "distinct (map u_id (filter (\<lambda>r. u_sync_status r = ''pending'') (users db)))"
    and "\<forall>i\<in>set (map u_id (filter (\<lambda>r. u_sync_status r = ''pending'') (users db))).
           map_option u_sync_status (select_user db i) = Some ''pending''"
proof -
  show "distinct (map u_id (filter (\<lambda>r. u_sync_status r = ''pending'') (users db)))"
    using assms by (rule distinct_map_filter)
  show "\<forall>i\<in>set (map u_id (filter (\<lambda>r. u_sync_status r = ''pending'') (users db))).
           map_option u_sync_status (select_user db i) = Some ''pending''"
  proof
    fix i assume "i \<in> set (map u_id (filter (\<lambda>r. u_sync_status r = ''pending'') (users db)))"
    then obtain r where r: "r \<in> set (users db)" "u_sync_status r = ''pending''" "i = u_id r"
      by auto
    from find_distinct [OF assms r(1)] r(2,3)
    show "map_option u_sync_status (select_user db i) = Some ''pending''"
      by (simp add: select_user_def)
  qed
qed

text \<open>
  The push of everything pending, with the connection check passed and the primary keys of the
  local tables distinct: where the two loops leave the manager.
\<close>

lemma sync_all_pending_spec:
  assumes check: "snd (check_connection m)"
    and du: "distinct (map u_id (users (local_conn m)))"
    and dp: "distinct (map p_id (pets (local_conn m)))"
  defines "pu \<equiv> map u_id (filter (\<lambda>r. u_sync_status r = ''pending'') (users (local_conn m)))"
    and "pp \<equiv> map p_id (filter (\<lambda>r. p_sync_status r = ''pending'') (pets (local_conn m)))"
    and "m' \<equiv> fst (sync_all_pending m)"
  shows "snd (sync_all_pending m)
           = [(''users'', PyInt (int (length (filter
                 (\<lambda>i. map_option u_sync_status (select_user (local_conn m') i) = Some ''synced'') pu)))),
              (''pets'', PyInt (int (length (filter
                 (\<lambda>i. map_option p_sync_status (select_pet (local_conn m') i) = Some ''synced'') pp)))),
              (''status'', PyStr ''online'')]"
    and "requests m' = requests m + 2 + length pu + length pp"
    and "\<forall>j. j \<notin> set pu \<longrightarrow> select_user (local_conn m') j = select_user (local_conn m) j"
    and "\<forall>k<length pu.
           select_user (local_conn m') (pu ! k) = select_user (local_conn m) (pu ! k)
         \<or> network m (requests m + 2 + k)
           \<and> select_user (local_conn m') (pu ! k)
               = map_option (\<lambda>r. r\<lparr>u_sync_status := ''synced''\<rparr>) (select_user (local_conn m) (pu ! k))"
    and "\<forall>j. j \<notin> set pp \<longrightarrow> select_pet (local_conn m') j = select_pet (local_conn m) j"
    and "\<forall>k<length pp.
           if network m (requests m + 2 + length pu + k)
              \<and> (\<exists>r. select_pet (local_conn m) (pp ! k) = Some r \<and> pet_row_ok (remote_db m') r)
           then select_pet (local_conn m') (pp ! k)
                  = map_option (\<lambda>r. r\<lparr>p_sync_status := ''synced''\<rparr>) (select_pet (local_conn m) (pp ! k))
              \<and> select_pet (remote_db m') (pp ! k)
                  = map_option (\<lambda>r. r\<lparr>p_sync_status := ''synced''\<rparr>) (select_pet (local_conn m) (pp ! k))
           else select_pet (local_conn m') (pp ! k) = select_pet (local_conn m) (pp ! k)"
proof -
  define m1 where "m1 = fst (check_connection m)"
  define d0 where "d0 = [(''users'', PyInt 0), (''pets'', PyInt 0), (''status'', PyStr ''online'')]"
  define mu where "mu = fst (sync_users_loop m1 pu d0)"
  define nu where "nu = int (length (filter
      (\<lambda>i. map_option u_sync_status (select_user (local_conn mu) i) = Some ''synced'') pu))"
  define d1 where "d1 = [(''users'', PyInt nu), (''pets'', PyInt 0), (''status'', PyStr ''online'')]"
  note ok = check_connection_ok [OF check, folded m1_def]
  have loc1: "local_conn m1 = local_conn m"
    unfolding m1_def by simp
  have on1: "is_online m1" "has_remote_conn m1"
    using ok by simp_all
  have pets_u: "pets (local_conn mu) = pets (local_conn m)"
    unfolding mu_def using sync_users_loop_frame [of "\<lambda>m. pets (local_conn m)" m1 pu d0] loc1
    by simp
  have onu: "is_online mu" "has_remote_conn mu"
    unfolding mu_def
    using sync_users_loop_frame [of is_online m1 pu d0]
      sync_users_loop_frame [of has_remote_conn m1 pu d0] on1
    by simp_all
  have netu: "network mu = network m"
    unfolding mu_def using sync_users_loop_frame [of network m1 pu d0] ok(4) by simp
  have whole: "sync_all_pending m = sync_pets_loop mu pp (snd (sync_users_loop m1 pu d0))"
    unfolding sync_all_pending_unfold Let_def using check
    by (simp add: m1_def [symmetric] loc1 pu_def [symmetric] d0_def [symmetric] mu_def [symmetric]
          pets_u pp_def [symmetric] del: dict_incr.simps)
  note urows = pending_users_rows [OF du, folded pu_def]
  from urows have urows1: "distinct pu"
      "\<forall>i\<in>set pu. map_option u_sync_status (select_user (local_conn m1) i) = Some ''pending''"
    unfolding loc1 by simp_all
  then have urows1': "\<forall>i\<in>set pu. select_user (local_conn m1) i \<noteq> None"
    by fastforce
  have ucount: "snd (sync_users_loop m1 pu d0) = d1"
    unfolding d0_def d1_def nu_def mu_def
    using sync_users_loop_count [OF on1 urows1, of 0 0 "''online''"] by simp
  note ur = sync_users_loop_rows [OF on1 urows1(1) urows1', of d0, folded mu_def, unfolded loc1 ok(3,4)]
  note prows = pending_pets_rows [OF dp, folded pp_def]
  have selu: "select_pet (local_conn mu) i = select_pet (local_conn m) i" for i
    by (simp add: select_pet_def pets_u)
  from prows have prowsu: "distinct pp"
      "\<forall>i\<in>set pp. map_option p_sync_status (select_pet (local_conn mu) i) = Some ''pending''"
    unfolding selu by simp_all
  then have prowsu': "\<forall>i\<in>set pp. select_pet (local_conn mu) i \<noteq> None"
    by fastforce
  have m': "m' = fst (sync_pets_loop mu pp d1)"
    unfolding m'_def whole ucount ..
  have users': "users (local_conn m') = users (local_conn mu)"
    unfolding m' using sync_pets_loop_frame [of "\<lambda>m. users (local_conn m)" mu pp d1] by simp
  then have selu': "select_user (local_conn m') i = select_user (local_conn mu) i" for i
    by (simp add: select_user_def)
  have rem: "users (remote_db m') = users (remote_db mu)"
      "foreign_keys (remote_db m') = foreign_keys (remote_db mu)"
    unfolding m'
    using sync_pets_loop_frame [of "\<lambda>m. users (remote_db m)" mu pp d1]
      sync_pets_loop_frame [of "\<lambda>m. foreign_keys (remote_db m)" mu pp d1]
    by simp_all
  have okr: "pet_row_ok (remote_db mu) r = pet_row_ok (remote_db m') r" for r
    by (rule pet_row_ok_cong) (simp_all add: rem)
  have requ: "requests mu = requests m + 2 + length pu"
    using ur by simp
  note pr = sync_pets_loop_rows [OF onu prowsu(1) prowsu', of d1, folded m', unfolded selu netu okr requ]
  show "snd (sync_all_pending m)
           = [(''users'', PyInt (int (length (filter
                 (\<lambda>i. map_option u_sync_status (select_user (local_conn m') i) = Some ''synced'') pu)))),
              (''pets'', PyInt (int (length (filter
                 (\<lambda>i. map_option p_sync_status (select_pet (local_conn m') i) = Some ''synced'') pp)))),
              (''status'', PyStr ''online'')]"
  proof -
    have "snd (sync_pets_loop mu pp d1)
         = [(''users'', PyInt nu),
            (''pets'', PyInt (0 + int (length (filter
               (\<lambda>i. map_option p_sync_status
                      (select_pet (local_conn (fst (sync_pets_loop mu pp d1))) i) = Some ''synced'') pp)))),
            (''status'', PyStr ''online'')]"
      using sync_pets_loop_count [OF onu prowsu, of nu 0 "''online''"] by (simp only: d1_def)
    moreover have "snd (sync_all_pending m) = snd (sync_pets_loop mu pp d1)"
      by (simp only: whole ucount)
    ultimately show ?thesis
      by (simp add: m' [symmetric] nu_def selu')
  qed
  show "requests m' = requests m + 2 + length pu + length pp"
    using pr by simp
  show "\<forall>j. j \<notin> set pu \<longrightarrow> select_user (local_conn m') j = select_user (local_conn m) j"
    unfolding selu' using ur by blast
  show "\<forall>k<length pu.
           select_user (local_conn m') (pu ! k) = select_user (local_conn m) (pu ! k)
         \<or> network m (requests m + 2 + k)
           \<and> select_user (local_conn m') (pu ! k)
               = map_option (\<lambda>r. r\<lparr>u_sync_status := ''synced''\<rparr>) (select_user (local_conn m) (pu ! k))"
    unfolding selu' using ur by blast
  show "\<forall>j. j \<notin> set pp \<longrightarrow> select_pet (local_conn m') j = select_pet (local_conn m) j"
    using pr by blast
  show "\<forall>k<length pp.
           if network m (requests m + 2 + length pu + k)
              \<and> (\<exists>r. select_pet (local_conn m) (pp ! k) = Some r \<and> pet_row_ok (remote_db m') r)
           then select_pet (local_conn m') (pp ! k)
                  = map_option (\<lambda>r. r\<lparr>p_sync_status := ''synced''\<rparr>) (select_pet (local_conn m) (pp ! k))
              \<and> select_pet (remote_db m') (pp ! k)
                  = map_option (\<lambda>r. r\<lparr>p_sync_status := ''synced''\<rparr>) (select_pet (local_conn m) (pp ! k))
           else select_pet (local_conn m') (pp ! k) = select_pet (local_conn m) (pp ! k)"
  proof (intro allI impI)
    fix k assume "k < length pp"
    with pr have "if network m (requests m + 2 + length pu + k)
              \<and> (\<exists>r. select_pet (local_conn m) (pp ! k) = Some r \<and> pet_row_ok (remote_db m') r)
           then select_pet (local_conn m') (pp ! k)
                  = map_option (\<lambda>r. r\<lparr>p_sync_status := ''synced''\<rparr>) (select_pet (local_conn m) (pp ! k))
              \<and> select_pet (remote_db m') (pp ! k)
                  = map_option (\<lambda>r. r\<lparr>p_sync_status := ''synced''\<rparr>) (select_pet (local_conn m) (pp ! k))
            else select_pet (local_conn m') (pp ! k) = select_pet (local_conn m) (pp ! k)
               \<and> select_pet (remote_db m') (pp ! k) = select_pet (remote_db mu) (pp ! k)"
      by blast
    then show "if network m (requests m + 2 + length pu + k)
              \<and> (\<exists>r. select_pet (local_conn m) (pp ! k) = Some r \<and> pet_row_ok (remote_db m') r)
           then select_pet (local_conn m') (pp ! k)
                  = map_option (\<lambda>r. r\<lparr>p_sync_status := ''synced''\<rparr>) (select_pet (local_conn m) (pp ! k))
              \<and> select_pet (remote_db m') (pp ! k)
                  = map_option (\<lambda>r. r\<lparr>p_sync_status := ''synced''\<rparr>) (select_pet (local_conn m) (pp ! k))
           else select_pet (local_conn m') (pp ! k) = select_pet (local_conn m) (pp ! k)"
      by (simp split: if_splits)
  qed
qed





subsection \<open>Push followed by pull\<close>

lemma check_connection_fail:
  assumes "\<not> snd (check_connection m)"
  shows "\<not> is_online (fst (check_connection m))"
    "remote_db (fst (check_connection m)) = remote_db m"
  using assms
  by (auto simp: check_connection_def try_connect_remote_def Let_def split: if_splits)

lemma sync_all_pending_env:
  assumes "snd (check_connection m)"
  shows "is_online (fst (sync_all_pending m))" "has_remote_conn (fst (sync_all_pending m))"
    "network (fst (sync_all_pending m)) = network m"
proof -
  note ok = check_connection_ok [OF assms]
  show "is_online (fst (sync_all_pending m))"
    unfolding sync_all_pending_unfold Let_def using assms ok(1)
    by (simp add: sync_pets_loop_frame [of is_online] sync_users_loop_frame [of is_online]
          del: dict_incr.simps)
  show "has_remote_conn (fst (sync_all_pending m))"
    unfolding sync_all_pending_unfold Let_def using assms ok(2)
    by (simp add: sync_pets_loop_frame [of has_remote_conn] sync_users_loop_frame [of has_remote_conn]
          del: dict_incr.simps)
  show "network (fst (sync_all_pending m)) = network m"
    unfolding sync_all_pending_unfold Let_def using assms ok(4)
    by (simp add: sync_pets_loop_frame [of network] sync_users_loop_frame [of network]
          del: dict_incr.simps)
qed

lemma sync_all_pending_offline:
  assumes "\<not> snd (check_connection m)"
  shows "snd (sync_all_pending m)
           = [(''users'', PyInt 0), (''pets'', PyInt 0), (''status'', PyStr ''offline'')]"
    "\<not> is_online (fst (sync_all_pending m))"
    "local_conn (fst (sync_all_pending m)) = local_conn m"
    "remote_db (fst (sync_all_pending m)) = remote_db m"
  using assms check_connection_fail [OF assms]
  by (simp_all add: sync_all_pending_unfold)

text \<open>The pull, online and with its fetch answered: count, rows and what it leaves alone.\<close>

lemma pull_from_remote_rows:
  assumes "is_online m" and "has_remote_conn m" and "network m (requests m)"
    and "distinct (map p_id (pets (remote_db m)))"
    and "\<forall>r \<in> set (pets (remote_db m)). p_user_id r = user_id \<longrightarrow> pet_row_ok (local_conn m) r"
  shows "snd (pull_from_remote m user_id)
           = [(''pets'', PyInt (int (length (filter
                 (\<lambda>r. p_user_id r = user_id
                    \<and> (case select_pet (local_conn m) (p_id r) of
                          None \<Rightarrow> True | Some l \<Rightarrow> p_updated_at l < p_updated_at r))
                 (pets (remote_db m)))))),
              (''status'', PyStr ''online'')]"
    and "\<forall>r \<in> set (pets (remote_db m)). p_user_id r = user_id \<longrightarrow>
            select_pet (local_conn (fst (pull_from_remote m user_id))) (p_id r)
              = (if (case select_pet (local_conn m) (p_id r) of
                       None \<Rightarrow> True | Some l \<Rightarrow> p_updated_at l < p_updated_at r)
                 then Some (r\<lparr>p_sync_status := ''synced''\<rparr>)
                 else select_pet (local_conn m) (p_id r))"
    and "\<forall>j. j \<notin> set (map p_id (filter (\<lambda>r. p_user_id r = user_id) (pets (remote_db m)))) \<longrightarrow>
            select_pet (local_conn (fst (pull_from_remote m user_id))) j = select_pet (local_conn m) j"
proof -
  define newer :: "database \<Rightarrow> pet_row \<Rightarrow> bool" where "newer = (\<lambda>db r. case select_pet db (p_id r) of
      None \<Rightarrow> True | Some l \<Rightarrow> p_updated_at l < p_updated_at r)"
  define rs where "rs = filter (\<lambda>r. p_user_id r = user_id) (pets (remote_db m))"
  have dist: "distinct (map p_id rs)"
    unfolding rs_def using assms(4) by (rule distinct_map_filter)
  have ok: "\<forall>r \<in> set rs. pet_row_ok (local_conn m) r"
    unfolding rs_def using assms(5) by simp
  from pull_loop_spec_aux [of newer rs "local_conn m" 0 "''online''", OF _ dist ok]
  obtain db' where loop: "pull_loop (local_conn m) rs [(''pets'', PyInt 0), (''status'', PyStr ''online'')]
             = (db', [(''pets'', PyInt (0 + int (length (filter (newer (local_conn m)) rs)))),
                      (''status'', PyStr ''online'')])"
    and rows: "\<forall>r \<in> set rs. select_pet db' (p_id r)
        = (if newer (local_conn m) r then Some (r\<lparr>p_sync_status := ''synced''\<rparr>)
           else select_pet (local_conn m) (p_id r))"
    and rest: "\<forall>j. j \<notin> set (map p_id rs) \<longrightarrow> select_pet db' j = select_pet (local_conn m) j"
    unfolding newer_def by blast
  have pull: "pull_from_remote m user_id
      = (m\<lparr>requests := requests m + 1, local_conn := db'\<rparr>,
         [(''pets'', PyInt (int (length (filter (newer (local_conn m)) rs)))), (''status'', PyStr ''online'')])"
    using assms(1-3) loop unfolding pull_from_remote_unfold Let_def rs_def by simp
  have cnt: "filter (newer (local_conn m)) rs
      = filter (\<lambda>r. p_user_id r = user_id \<and> newer (local_conn m) r) (pets (remote_db m))"
    unfolding rs_def by simp
  show "snd (pull_from_remote m user_id)
           = [(''pets'', PyInt (int (length (filter
                 (\<lambda>r. p_user_id r = user_id
                    \<and> (case select_pet (local_conn m) (p_id r) of
                          None \<Rightarrow> True | Some l \<Rightarrow> p_updated_at l < p_updated_at r))
                 (pets (remote_db m)))))),
              (''status'', PyStr ''online'')]"
    using cnt unfolding pull newer_def by simp
  show "\<forall>r \<in> set (pets (remote_db m)). p_user_id r = user_id \<longrightarrow>
            select_pet (local_conn (fst (pull_from_remote m user_id))) (p_id r)
              = (if (case select_pet (local_conn m) (p_id r) of
                       None \<Rightarrow> True | Some l \<Rightarrow> p_updated_at l < p_updated_at r)
                 then Some (r\<lparr>p_sync_status := ''synced''\<rparr>)
                 else select_pet (local_conn m) (p_id r))"
  proof (intro ballI impI)
    fix r assume "r \<in> set (pets (remote_db m))" "p_user_id r = user_id"
    then have "r \<in> set rs"
      by (simp add: rs_def)
    with rows have "select_pet db' (p_id r)
        = (if newer (local_conn m) r then Some (r\<lparr>p_sync_status := ''synced''\<rparr>)
           else select_pet (local_conn m) (p_id r))"
      by blast
    then show "select_pet (local_conn (fst (pull_from_remote m user_id))) (p_id r)
              = (if (case select_pet (local_conn m) (p_id r) of
                       None \<Rightarrow> True | Some l \<Rightarrow> p_updated_at l < p_updated_at r)
                 then Some (r\<lparr>p_sync_status := ''synced''\<rparr>)
                 else select_pet (local_conn m) (p_id r))"
      unfolding pull newer_def by simp
  qed
  show "\<forall>j. j \<notin> set (map p_id (filter (\<lambda>r. p_user_id r = user_id) (pets (remote_db m)))) \<longrightarrow>
            select_pet (local_conn (fst (pull_from_remote m user_id))) j = select_pet (local_conn m) j"
    using rest unfolding pull rs_def by simp
qed

lemma pull_from_remote_remote [simp]:
  "remote_db (fst (pull_from_remote m user_id)) = remote_db m"
  "is_online (fst (pull_from_remote m user_id)) = is_online m"
  unfolding pull_from_remote_unfold Let_def by simp_all

lemma select_pet_mem:
  "select_pet db i = Some r \<Longrightarrow> r \<in> set (pets db) \<and> p_id r = i"
  unfolding select_pet_def find_Some_iff using nth_mem by blast

text \<open>A row that the push has just sent is not overwritten by the pull that follows.\<close>

lemma pull_keeps_pushed:
  assumes on: "is_online m" "has_remote_conn m"
    and dist: "distinct (map p_id (pets (remote_db m)))"
    and ok: "\<forall>r \<in> set (pets (remote_db m)). p_user_id r = user_id \<longrightarrow> pet_row_ok (local_conn m) r"
    and same: "select_pet (remote_db m) i = select_pet (local_conn m) i"
    and row: "select_pet (local_conn m) i = Some l"
  shows "select_pet (local_conn (fst (pull_from_remote m user_id))) i = Some l"
proof (cases "network m (requests m)")
  case False
  with row show ?thesis
    unfolding pull_from_remote_unfold Let_def by simp
next
  case True
  note rows = pull_from_remote_rows [OF on True dist ok]
  from same row have rem: "l \<in> set (pets (remote_db m))" "p_id l = i"
    using select_pet_mem [of "remote_db m" i l] by simp_all
  show ?thesis
  proof (cases "p_user_id l = user_id")
    case True
    with rows(2) rem row show ?thesis
      by auto
  next
    case False
    have "i \<notin> set (map p_id (filter (\<lambda>r. p_user_id r = user_id) (pets (remote_db m))))"
    proof
      assume "i \<in> set (map p_id (filter (\<lambda>r. p_user_id r = user_id) (pets (remote_db m))))"
      then obtain r where r: "r \<in> set (pets (remote_db m))" "p_user_id r = user_id" "p_id r = i"
        by auto
      from dist have "inj_on p_id (set (pets (remote_db m)))"
        by (simp add: distinct_map)
      with r rem have "r = l"
        by (metis inj_onD)
      with r False show False
        by simp
    qed
    with rows(3) row show ?thesis
      by simp
  qed
qed

lemma pushed_pet_on_remote:
  assumes check: "snd (check_connection m)"
    and du: "distinct (map u_id (users (local_conn m)))"
    and dp: "distinct (map p_id (pets (local_conn m)))"
    and i: "i \<in> set (map p_id (filter (\<lambda>r. p_sync_status r = ''pending'') (pets (local_conn m))))"
    and pushed: "map_option p_sync_status (select_pet (local_conn (fst (sync_all_pending m))) i)
                   = Some ''synced''"
  shows "select_pet (remote_db (fst (sync_all_pending m))) i
           = select_pet (local_conn (fst (sync_all_pending m))) i"
proof -
  define pp where "pp = map p_id (filter (\<lambda>r. p_sync_status r = ''pending'') (pets (local_conn m)))"
  define pu where "pu = map u_id (filter (\<lambda>r. u_sync_status r = ''pending'') (users (local_conn m)))"
  define m' where "m' = fst (sync_all_pending m)"
  from i obtain k where k: "k < length pp" and ik: "i = pp ! k"
    unfolding pp_def [symmetric] by (metis in_set_conv_nth)
  from pending_pets_rows(2) [OF dp, folded pp_def] k
  have pend: "map_option p_sync_status (select_pet (local_conn m) (pp ! k)) = Some ''pending''"
    by simp
  from sync_all_pending_spec(6) [OF check du dp, folded m'_def pu_def pp_def] k
  have at: "if network m (requests m + 2 + length pu + k)
              \<and> (\<exists>r. select_pet (local_conn m) (pp ! k) = Some r \<and> pet_row_ok (remote_db m') r)
           then select_pet (local_conn m') (pp ! k)
                  = map_option (\<lambda>r. r\<lparr>p_sync_status := ''synced''\<rparr>) (select_pet (local_conn m) (pp ! k))
              \<and> select_pet (remote_db m') (pp ! k)
                  = map_option (\<lambda>r. r\<lparr>p_sync_status := ''synced''\<rparr>) (select_pet (local_conn m) (pp ! k))
           else select_pet (local_conn m') (pp ! k) = select_pet (local_conn m) (pp ! k)"
    by blast
  show ?thesis
  proof (cases "network m (requests m + 2 + length pu + k)
              \<and> (\<exists>r. select_pet (local_conn m) (pp ! k) = Some r \<and> pet_row_ok (remote_db m') r)")
    case True
    with at show ?thesis
      unfolding m'_def [symmetric] ik by simp
  next
    case False
    with at have "select_pet (local_conn m') (pp ! k) = select_pet (local_conn m) (pp ! k)"
      by metis
    with pend pushed show ?thesis
      unfolding m'_def [symmetric] ik by auto
  qed
qed

lemma full_sync_parts:
  "fst (full_sync m user_id) = fst (pull_from_remote (fst (sync_all_pending m)) user_id)"
  "snd (full_sync m user_id)
     = [(''pushed'', PyDict (snd (sync_all_pending m))),
        (''pulled'', PyDict (snd (pull_from_remote (fst (sync_all_pending m)) user_id))),
        (''is_online'', PyBool (is_online (fst (sync_all_pending m))))]"
  by (simp_all add: full_sync_def Let_def case_prod_beta)

lemma full_sync_online_device:
  "snd (full_sync online_device ''u1'')
     = [(''pushed'', PyDict [(''users'', PyInt 0), (''pets'', PyInt 1), (''status'', PyStr ''online'')]),
        (''pulled'', PyDict [(''pets'', PyInt 0), (''status'', PyStr ''online'')]),
        (''is_online'', PyBool True)]"
  by (simp add: full_sync_def sync_all_pending_def check_connection_def try_connect_remote_def
        pull_from_remote_def remote_select_pets_def sync_pet_to_remote_def sync_user_to_remote_def
        remote_write_def insert_or_replace_pet_def pet_row_ok_def mark_pet_synced_def select_pet_def
        online_device_def offline_device_def home_db_def remote_start_def rex_def ann_def Let_def)

subsection \<open>Full sync\<close>

text \<open>
  C3 as stated does not hold: the \<^verbatim>\<open>pulled\<close> dictionary has no entry for \<^verbatim>\<open>users\<close> (only
  pets are pulled), and both dictionaries carry a \<^verbatim>\<open>status\<close> string next to the counts.
  Here for the device that is online with one pending pet.
\<close>

theorem full_sync_pulled_has_no_users:
  "snd (full_sync online_device ''u1'')
     = [(''pushed'', PyDict [(''users'', PyInt 0), (''pets'', PyInt 1), (''status'', PyStr ''online'')]),
        (''pulled'', PyDict [(''pets'', PyInt 0), (''status'', PyStr ''online'')]),
        (''is_online'', PyBool True)]
   \<and> map_of [(''pets'', PyInt 0), (''status'', PyStr ''online'')] ''users'' = None
   \<and> map_of [(''users'', PyInt 0), (''pets'', PyInt 1), (''status'', PyStr ''online'')] ''status''
       = Some (PyStr ''online'')"
  using full_sync_online_device by simp

text \<open>
  C3, amended. \<^verbatim>\<open>full_sync(owner_id)\<close> runs \<^verbatim>\<open>sync_all_pending\<close> and then
  \<^verbatim>\<open>pull_from_remote(owner_id)\<close> on the state the push left. With the primary keys distinct
  and the local \<^verbatim>\<open>INSERT OR REPLACE\<close> of the pull raising no constraint error, it returns,
  when the connection check passes,
  \<^verbatim>\<open>{"pushed": {"users": n, "pets": n, "status": "online"}, "pulled": {"pets": n, "status":
  "online"}, "is_online": True}\<close> where the pushed counts are the numbers of pending users and
  pending pets that the push marked \<open>synced\<close>, and the pulled count, for pets only, is the number
  of the owner's remote rows that have no local row or a strictly later \<open>updated_at\<close> than the
  local row after the push (0 when the fetch fails); a pet that the push has sent is not
  overwritten by the pull and is the same on both sides afterwards. When the connection check
  fails, all counts are 0, both statuses are \<open>offline\<close>, \<open>is_online\<close> is false and neither
  database changes.
\<close>

theorem full_sync_result:
  assumes "distinct (map u_id (users (local_conn m)))"
    and "distinct (map p_id (pets (local_conn m)))"
    and "distinct (map p_id (pets (remote_db (fst (sync_all_pending m)))))"
    and "\<forall>r \<in> set (pets (remote_db (fst (sync_all_pending m)))).
           p_user_id r = user_id \<longrightarrow> pet_row_ok (local_conn (fst (sync_all_pending m))) r"
  shows "let m1 = fst (sync_all_pending m);
             m2 = fst (full_sync m user_id);
             pending_users = map u_id (filter (\<lambda>r. u_sync_status r = ''pending'') (users (local_conn m)));
             pending_pets = map p_id (filter (\<lambda>r. p_sync_status r = ''pending'') (pets (local_conn m)));
             pushed_user = (\<lambda>i. map_option u_sync_status (select_user (local_conn m1) i) = Some ''synced'');
             pushed_pet = (\<lambda>i. map_option p_sync_status (select_pet (local_conn m1) i) = Some ''synced'');
             newer = (\<lambda>r. p_user_id r = user_id
                         \<and> (case select_pet (local_conn m1) (p_id r) of
                               None \<Rightarrow> True | Some l \<Rightarrow> p_updated_at l < p_updated_at r))
         in m2 = fst (pull_from_remote m1 user_id)
          \<and> (if snd (check_connection m)
             then snd (full_sync m user_id)
                    = [(''pushed'', PyDict [(''users'', PyInt (int (length (filter pushed_user pending_users)))),
                                           (''pets'', PyInt (int (length (filter pushed_pet pending_pets)))),
                                           (''status'', PyStr ''online'')]),
                       (''pulled'', PyDict [(''pets'', PyInt (if network m (requests m1)
                                                 then int (length (filter newer (pets (remote_db m1))))
                                                 else 0)),
                                           (''status'', PyStr ''online'')]),
                       (''is_online'', PyBool True)]
                \<and> (\<forall>i\<in>set pending_pets. pushed_pet i \<longrightarrow>
                       select_pet (local_conn m2) i = select_pet (local_conn m1) i
                     \<and> select_pet (remote_db m2) i = select_pet (local_conn m1) i)
             else snd (full_sync m user_id)
                    = [(''pushed'', PyDict [(''users'', PyInt 0), (''pets'', PyInt 0),
                                           (''status'', PyStr ''offline'')]),
                       (''pulled'', PyDict [(''pets'', PyInt 0), (''status'', PyStr ''offline'')]),
                       (''is_online'', PyBool False)]
                \<and> local_conn m2 = local_conn m \<and> remote_db m2 = remote_db m)"
proof -
  define m1 where "m1 = fst (sync_all_pending m)"
  define m2 where "m2 = fst (full_sync m user_id)"
  define pu where "pu = map u_id (filter (\<lambda>r. u_sync_status r = ''pending'') (users (local_conn m)))"
  define pp where "pp = map p_id (filter (\<lambda>r. p_sync_status r = ''pending'') (pets (local_conn m)))"
  note parts = full_sync_parts [of m user_id, folded m1_def m2_def]
  have order: "m2 = fst (pull_from_remote m1 user_id)"
    by (rule parts(1))
  have offline: "snd (full_sync m user_id)
                    = [(''pushed'', PyDict [(''users'', PyInt 0), (''pets'', PyInt 0),
                                           (''status'', PyStr ''offline'')]),
                       (''pulled'', PyDict [(''pets'', PyInt 0), (''status'', PyStr ''offline'')]),
                       (''is_online'', PyBool False)]
                \<and> local_conn m2 = local_conn m \<and> remote_db m2 = remote_db m"
    if no: "\<not> snd (check_connection m)"
  proof -
    note off = sync_all_pending_offline [OF no, folded m1_def]
    from off(2) have pull: "pull_from_remote m1 user_id
        = (m1, [(''pets'', PyInt 0), (''status'', PyStr ''offline'')])"
      unfolding pull_from_remote_unfold by simp
    from off pull show ?thesis
      unfolding parts by simp
  qed
  have online: "snd (full_sync m user_id)
                    = [(''pushed'', PyDict [(''users'', PyInt (int (length (filter
                          (\<lambda>i. map_option u_sync_status (select_user (local_conn m1) i) = Some ''synced'') pu)))),
                                           (''pets'', PyInt (int (length (filter
                          (\<lambda>i. map_option p_sync_status (select_pet (local_conn m1) i) = Some ''synced'') pp)))),
                                           (''status'', PyStr ''online'')]),
                       (''pulled'', PyDict [(''pets'', PyInt (if network m (requests m1)
                                                 then int (length (filter
                          (\<lambda>r. p_user_id r = user_id
                             \<and> (case select_pet (local_conn m1) (p_id r) of
                                   None \<Rightarrow> True | Some l \<Rightarrow> p_updated_at l < p_updated_at r))
                          (pets (remote_db m1))))
                                                 else 0)),
                                           (''status'', PyStr ''online'')]),
                       (''is_online'', PyBool True)]
                \<and> (\<forall>i\<in>set pp.
                       map_option p_sync_status (select_pet (local_conn m1) i) = Some ''synced'' \<longrightarrow>
                       select_pet (local_conn m2) i = select_pet (local_conn m1) i
                     \<and> select_pet (remote_db m2) i = select_pet (local_conn m1) i)"
    if yes: "snd (check_connection m)"
  proof -
    note env = sync_all_pending_env [OF yes, folded m1_def]
    note push = sync_all_pending_spec(1) [OF yes assms(1,2), folded m1_def pu_def pp_def]
    note dist = assms(3) [folded m1_def]
    note ok = assms(4) [folded m1_def]
    have pull: "snd (pull_from_remote m1 user_id)
        = [(''pets'', PyInt (if network m (requests m1)
                             then int (length (filter
                          (\<lambda>r. p_user_id r = user_id
                             \<and> (case select_pet (local_conn m1) (p_id r) of
                                   None \<Rightarrow> True | Some l \<Rightarrow> p_updated_at l < p_updated_at r))
                          (pets (remote_db m1))))
                             else 0)),
           (''status'', PyStr ''online'')]"
    proof (cases "network m (requests m1)")
      case True
      then have "network m1 (requests m1)"
        by (simp add: env(3))
      from pull_from_remote_rows(1) [OF env(1,2) this dist ok] True show ?thesis
        by simp
    next
      case False
      then have "\<not> network m1 (requests m1)"
        by (simp add: env(3))
      with env(1,2) False show ?thesis
        unfolding pull_from_remote_unfold by simp
    qed
    have result: "snd (full_sync m user_id)
                    = [(''pushed'', PyDict [(''users'', PyInt (int (length (filter
                          (\<lambda>i. map_option u_sync_status (select_user (local_conn m1) i) = Some ''synced'') pu)))),
                                           (''pets'', PyInt (int (length (filter
                          (\<lambda>i. map_option p_sync_status (select_pet (local_conn m1) i) = Some ''synced'') pp)))),
                                           (''status'', PyStr ''online'')]),
                       (''pulled'', PyDict [(''pets'', PyInt (if network m (requests m1)
                                                 then int (length (filter
                          (\<lambda>r. p_user_id r = user_id
                             \<and> (case select_pet (local_conn m1) (p_id r) of
                                   None \<Rightarrow> True | Some l \<Rightarrow> p_updated_at l < p_updated_at r))
                          (pets (remote_db m1))))
                                                 else 0)),
                                           (''status'', PyStr ''online'')]),
                       (''is_online'', PyBool True)]"
      unfolding parts(2) push pull using env(1) by simp
    have kept: "\<forall>i\<in>set pp.
                       map_option p_sync_status (select_pet (local_conn m1) i) = Some ''synced'' \<longrightarrow>
                       select_pet (local_conn m2) i = select_pet (local_conn m1) i
                     \<and> select_pet (remote_db m2) i = select_pet (local_conn m1) i"
    proof (intro ballI impI)
      fix i assume i: "i \<in> set pp"
        and pushed: "map_option p_sync_status (select_pet (local_conn m1) i) = Some ''synced''"
      from pushed_pet_on_remote [OF yes assms(1,2) i [unfolded pp_def] pushed [unfolded m1_def]]
      have same: "select_pet (remote_db m1) i = select_pet (local_conn m1) i"
        unfolding m1_def .
      from pushed obtain l where l: "select_pet (local_conn m1) i = Some l"
        by auto
      from pull_keeps_pushed [OF env(1,2) dist ok same l]
      have "select_pet (local_conn m2) i = Some l"
        unfolding order .
      with same l show "select_pet (local_conn m2) i = select_pet (local_conn m1) i
                     \<and> select_pet (remote_db m2) i = select_pet (local_conn m1) i"
        unfolding order by simp
    qed
    from result kept show ?thesis ..
  qed
  from order offline online show ?thesis
    unfolding Let_def m1_def [symmetric] m2_def [symmetric] pu_def [symmetric] pp_def [symmetric]
    by (cases "snd (check_connection m)") simp_all
qed

lemma syncing_device_push:
  "local_conn (fst (sync_all_pending syncing_device))
     = home_db\<lparr>pets := [rex\<lparr>p_sync_status := ''synced''\<rparr>]\<rparr>"
  "remote_db (fst (sync_all_pending syncing_device))
     = remote_start\<lparr>pets := [tom, rex\<lparr>p_sync_status := ''synced''\<rparr>]\<rparr>"
  "requests (fst (sync_all_pending syncing_device)) = 3"
  "network syncing_device = (\<lambda>k. True)"
  by (simp_all add: sync_all_pending_def check_connection_def try_connect_remote_def
      sync_user_to_remote_def sync_pet_to_remote_def remote_write_def select_user_def select_pet_def
      insert_or_replace_user_def insert_or_replace_pet_def pet_row_ok_def mark_user_synced_def
      mark_pet_synced_def syncing_device_def online_device_def offline_device_def home_db_def
      remote_start_def ann_def rex_def tom_def Let_def)

theorem full_sync_result_witness:
  "snd (check_connection syncing_device)
   \<and> distinct (map u_id (users (local_conn syncing_device)))
   \<and> distinct (map p_id (pets (local_conn syncing_device)))
   \<and> distinct (map p_id (pets (remote_db (fst (sync_all_pending syncing_device)))))
   \<and> snd (full_sync syncing_device ''u1'')
       = [(''pushed'', PyDict [(''users'', PyInt 0), (''pets'', PyInt 1), (''status'', PyStr ''online'')]),
          (''pulled'', PyDict [(''pets'', PyInt 1), (''status'', PyStr ''online'')]),
          (''is_online'', PyBool True)]
   \<and> select_pet (local_conn (fst (full_sync syncing_device ''u1''))) ''p1''
       = Some (rex\<lparr>p_sync_status := ''synced''\<rparr>)
   \<and> select_pet (remote_db (fst (full_sync syncing_device ''u1''))) ''p1''
       = Some (rex\<lparr>p_sync_status := ''synced''\<rparr>)
   \<and> \<not> snd (check_connection offline_device)
   \<and> snd (full_sync offline_device ''u1'')
       = [(''pushed'', PyDict [(''users'', PyInt 0), (''pets'', PyInt 0), (''status'', PyStr ''offline'')]),
          (''pulled'', PyDict [(''pets'', PyInt 0), (''status'', PyStr ''offline'')]),
          (''is_online'', PyBool False)]
   \<and> local_conn (fst (full_sync offline_device ''u1'')) = local_conn offline_device"
proof -
  have yes: "snd (check_connection syncing_device)"
    by (simp add: check_connection_def try_connect_remote_def syncing_device_def online_device_def
        offline_device_def Let_def)
  have h1: "distinct (map u_id (users (local_conn syncing_device)))"
    by (simp add: syncing_device_def online_device_def offline_device_def home_db_def)
  have h2: "distinct (map p_id (pets (local_conn syncing_device)))"
    by (simp add: syncing_device_def online_device_def offline_device_def home_db_def)
  have h3: "distinct (map p_id (pets (remote_db (fst (sync_all_pending syncing_device)))))"
    unfolding syncing_device_push by (simp add: rex_def tom_def)
  have h4: "\<forall>r \<in> set (pets (remote_db (fst (sync_all_pending syncing_device)))).
           p_user_id r = ''u1'' \<longrightarrow> pet_row_ok (local_conn (fst (sync_all_pending syncing_device))) r"
    unfolding syncing_device_push by (simp add: pet_row_ok_def home_db_def rex_def tom_def ann_def)
  have pu: "map u_id (filter (\<lambda>r. u_sync_status r = ''pending'') (users (local_conn syncing_device))) = []"
    by (simp add: syncing_device_def online_device_def offline_device_def home_db_def ann_def)
  have pp: "map p_id (filter (\<lambda>r. p_sync_status r = ''pending'') (pets (local_conn syncing_device)))
              = [''p1'']"
    by (simp add: syncing_device_def online_device_def offline_device_def home_db_def rex_def)
  have p1: "select_pet (local_conn (fst (sync_all_pending syncing_device))) ''p1''
              = Some (rex\<lparr>p_sync_status := ''synced''\<rparr>)"
    unfolding syncing_device_push by (simp add: select_pet_def rex_def)
  have sel: "(map_option p_sync_status (select_pet (local_conn (fst (sync_all_pending syncing_device))) ''p1'')
               = Some ''synced'') = True"
    unfolding p1 by simp
  have newer: "filter (\<lambda>r. p_user_id r = ''u1''
                 \<and> (case select_pet (local_conn (fst (sync_all_pending syncing_device))) (p_id r) of
                       None \<Rightarrow> True | Some l \<Rightarrow> p_updated_at l < p_updated_at r))
               (pets (remote_db (fst (sync_all_pending syncing_device)))) = [tom]"
    unfolding syncing_device_push by (simp add: select_pet_def home_db_def rex_def tom_def)
  have net: "network syncing_device (requests (fst (sync_all_pending syncing_device))) = True"
    unfolding syncing_device_push by simp
  note online = full_sync_result [OF h1 h2 h3 h4, unfolded Let_def pu pp if_P [OF yes] filter.simps
      sel net if_True newer]
  from online [THEN conjunct2] have 1: "snd (full_sync syncing_device ''u1'')
       = [(''pushed'', PyDict [(''users'', PyInt 0), (''pets'', PyInt 1), (''status'', PyStr ''online'')]),
          (''pulled'', PyDict [(''pets'', PyInt 1), (''status'', PyStr ''online'')]),
          (''is_online'', PyBool True)]"
    by simp
  from online [THEN conjunct2] p1 have 2: "select_pet (local_conn (fst (full_sync syncing_device ''u1''))) ''p1''
       = Some (rex\<lparr>p_sync_status := ''synced''\<rparr>)
     \<and> select_pet (remote_db (fst (full_sync syncing_device ''u1''))) ''p1''
       = Some (rex\<lparr>p_sync_status := ''synced''\<rparr>)"
    by simp
  have no: "\<not> snd (check_connection offline_device)"
    by (simp add: check_connection_def try_connect_remote_def offline_device_def)
  note off = sync_all_pending_offline [OF no]
  have g1: "distinct (map u_id (users (local_conn offline_device)))"
    by (simp add: offline_device_def home_db_def)
  have g2: "distinct (map p_id (pets (local_conn offline_device)))"
    by (simp add: offline_device_def home_db_def)
  have g3: "distinct (map p_id (pets (remote_db (fst (sync_all_pending offline_device)))))"
    unfolding off by (simp add: offline_device_def empty_db_def)
  have g4: "\<forall>r \<in> set (pets (remote_db (fst (sync_all_pending offline_device)))).
           p_user_id r = ''u1'' \<longrightarrow> pet_row_ok (local_conn (fst (sync_all_pending offline_device))) r"
    unfolding off by (simp add: offline_device_def empty_db_def)
  note offline = full_sync_result [OF g1 g2 g3 g4, unfolded Let_def if_not_P [OF no]]
  from offline have 3: "snd (full_sync offline_device ''u1'')
       = [(''pushed'', PyDict [(''users'', PyInt 0), (''pets'', PyInt 0), (''status'', PyStr ''offline'')]),
          (''pulled'', PyDict [(''pets'', PyInt 0), (''status'', PyStr ''offline'')]),
          (''is_online'', PyBool False)]
   \<and> local_conn (fst (full_sync offline_device ''u1'')) = local_conn offline_device"
    by blast
  from yes h1 h2 h3 1 2 no 3 show ?thesis
    by blast
qed

end
